theory Spec2Isabelle
  imports Main "HOL-Library.Char_ord" "HOL-Library.List_Lexorder"
begin

section \<open>Exceptions\<close>

text \<open>
  Every exception that the storage adapter can let escape is a value of \<open>exn\<close>.
  \<open>SuspiciousFileOperation\<close> carries the joined path and the base path of its
  message; \<open>ValueError\<close> is raised by the URL parser of the standard library and by
  operations on a closed file; \<open>AttributeError\<close> is an attribute access on \<open>None\<close>;
  \<open>NotFound\<close> is the object store's error for a missing object; \<open>ServiceError\<close>
  stands for every other error of the object store (its text is not inspected).
\<close>

datatype exn =
    SuspiciousFileOperation string string
  | ValueError
  | AttributeError
  | NotFound
  | ServiceError string

text \<open>The exception of the path resolver, whatever its two paths.\<close>

fun is_suspicious :: "exn \<Rightarrow> bool" where
  "is_suspicious (SuspiciousFileOperation resolved base) = True"
| "is_suspicious e = False"

section \<open>Python string operations\<close>

text \<open>
  Python text is modelled by \<open>string\<close>: a list of characters with code points
  below 256. The operations below are the ones of Python's \<open>str\<close> that the code and
  the URL functions of the standard library use.
\<close>

definition lstrip :: "string \<Rightarrow> string \<Rightarrow> string" where
  "lstrip chars s = dropWhile (\<lambda>c. c \<in> set chars) s"

definition rstrip :: "string \<Rightarrow> string \<Rightarrow> string" where
  "rstrip chars s = rev (dropWhile (\<lambda>c. c \<in> set chars) (rev s))"

definition startswith :: "string \<Rightarrow> string \<Rightarrow> bool" where
  "startswith s p = (take (length p) s = p)"

definition endswith :: "string \<Rightarrow> string \<Rightarrow> bool" where
  "endswith s p = (length p \<le> length s \<and> drop (length s - length p) s = p)"

text \<open>\<open>s.split(d)\<close> for a one-character separator: never the empty list.\<close>

fun str_split :: "char \<Rightarrow> string \<Rightarrow> string list" where
  "str_split d [] = [[]]"
| "str_split d (c # cs) =
     (let rest = str_split d cs
      in if c = d then [] # rest else (c # hd rest) # tl rest)"

text \<open>\<open>d.join(xs)\<close>.\<close>

fun str_join :: "string \<Rightarrow> string list \<Rightarrow> string" where
  "str_join d [] = []"
| "str_join d [x] = x"
| "str_join d (x # y # ys) = x @ d @ str_join d (y # ys)"

text \<open>\<open>s.find(c)\<close>: the first index of \<open>c\<close>, \<open>None\<close> for Python's \<open>-1\<close>.\<close>

fun str_find :: "char \<Rightarrow> string \<Rightarrow> nat option" where
  "str_find c [] = None"
| "str_find c (x # xs) =
     (if x = c then Some 0 else map_option Suc (str_find c xs))"

text \<open>
  \<open>s.partition(c)\<close>, without the separator: the text before the first \<open>c\<close> and the
  text after it (both are used only where \<open>c\<close> occurs, or where an empty tail is
  what Python gives too).
\<close>

definition before :: "char \<Rightarrow> string \<Rightarrow> string" where
  "before c s = takeWhile (\<lambda>x. x \<noteq> c) s"

definition after :: "char \<Rightarrow> string \<Rightarrow> string" where
  "after c s = drop 1 (dropWhile (\<lambda>x. x \<noteq> c) s)"

definition ascii_lowercase :: string where
  "ascii_lowercase = ''abcdefghijklmnopqrstuvwxyz''"

definition ascii_uppercase :: string where
  "ascii_uppercase = ''ABCDEFGHIJKLMNOPQRSTUVWXYZ''"

definition digits :: string where
  "digits = ''0123456789''"

text \<open>\<open>c.isascii() and c.isalpha()\<close>.\<close>

definition is_ascii_alpha :: "char \<Rightarrow> bool" where
  "is_ascii_alpha c = (c \<in> set (ascii_lowercase @ ascii_uppercase))"

text \<open>\<open>s.lower()\<close>, on the ASCII letters (it is applied to scheme names only).\<close>

definition lower_char :: "char \<Rightarrow> char" where
  "lower_char c =
     (case map_of (zip ascii_uppercase ascii_lowercase) c of
        Some l \<Rightarrow> l
      | None \<Rightarrow> c)"

definition lower :: "string \<Rightarrow> string" where
  "lower s = map lower_char s"

text \<open>\<open>re.sub("//+", "/", s)\<close>: every run of two or more separators becomes one.\<close>

fun collapse_slashes :: "string \<Rightarrow> string" where
  "collapse_slashes (a # b # cs) =
     (if a = CHR ''/'' \<and> b = CHR ''/'' then collapse_slashes (b # cs)
      else a # collapse_slashes (b # cs))"
| "collapse_slashes cs = cs"

section \<open>The standard library's bracketed-host check\<close>

text \<open>
  \<open>urlsplit\<close> validates a host written in square brackets with
  \<open>ipaddress.ip_address\<close>. Only whether the parse succeeds matters to the callers, so
  the functions below return \<open>True\<close> where the library returns an address and \<open>False\<close>
  where it raises.
\<close>

definition hexdigits :: string where
  "hexdigits = ''0123456789ABCDEFabcdef''"

definition decimal_value :: "string \<Rightarrow> nat" where
  "decimal_value s =
     foldl (\<lambda>n c. 10 * n + (case str_find c digits of Some d \<Rightarrow> d | None \<Rightarrow> 0)) 0 s"

text \<open>\<open>IPv4Address._parse_octet\<close>.\<close>

definition parse_octet :: "string \<Rightarrow> nat option" where
  "parse_octet octet_str =
     (if octet_str = [] then None
      else if \<not> list_all (\<lambda>c. c \<in> set digits) octet_str then None
      else if length octet_str > 3 then None
      else if octet_str \<noteq> ''0'' \<and> hd octet_str = CHR ''0'' then None
      else if decimal_value octet_str > 255 then None
      else Some (decimal_value octet_str))"

text \<open>\<open>IPv4Address(s)._ip\<close> for a string \<open>s\<close>.\<close>

definition ipv4_address :: "string \<Rightarrow> nat option" where
  "ipv4_address addr_str =
     (if CHR ''/'' \<in> set addr_str then None
      else if addr_str = [] then None
      else
        let octets = map parse_octet (str_split CHR ''.'' addr_str) in
        if length octets \<noteq> 4 then None
        else if list_ex (\<lambda>octet. octet = None) octets then None
        else Some (foldl (\<lambda>n octet. 256 * n + the octet) 0 octets))"

text \<open>\<open>'%x' % n\<close> for \<open>n < 65536\<close>.\<close>

definition hex4 :: "nat \<Rightarrow> string" where
  "hex4 n =
     (let ds = map (\<lambda>k. ''0123456789abcdef'' ! k)
                 [n div 4096 mod 16, n div 256 mod 16, n div 16 mod 16, n mod 16];
          stripped = dropWhile (\<lambda>c. c = CHR ''0'') ds
      in if stripped = [] then ''0'' else stripped)"

text \<open>\<open>IPv6Address._parse_hextet\<close> succeeds.\<close>

definition parse_hextet_ok :: "string \<Rightarrow> bool" where
  "parse_hextet_ok hextet_str =
     (list_all (\<lambda>c. c \<in> set hexdigits) hextet_str
      \<and> length hextet_str \<le> 4 \<and> hextet_str \<noteq> [])"

text \<open>
  \<open>IPv6Address._ip_int_from_string\<close> succeeds, from the point where the IPv4-style
  suffix has been replaced.
\<close>

definition ipv6_parts_ok :: "string list \<Rightarrow> bool" where
  "ipv6_parts_ok parts =
     (if length parts > 9 then False
      else
        case filter (\<lambda>i. parts ! i = []) [1 ..< length parts - 1] of
          [] \<Rightarrow>
            length parts = 8 \<and> hd parts \<noteq> [] \<and> last parts \<noteq> []
            \<and> list_all parse_hextet_ok parts
        | [skip_index] \<Rightarrow>
            (let parts_hi = (if hd parts = [] then skip_index - 1 else skip_index);
                 parts_lo = (if last parts = [] then length parts - skip_index - 2
                             else length parts - skip_index - 1)
             in (if hd parts = [] \<and> parts_hi \<noteq> 0 then False
                 else if last parts = [] \<and> parts_lo \<noteq> 0 then False
                 else if parts_hi + parts_lo > 7 then False
                 else list_all parse_hextet_ok (take parts_hi parts)
                    \<and> list_all parse_hextet_ok (drop (length parts - parts_lo) parts)))
        | _ \<Rightarrow> False)"

definition ipv6_int_ok :: "string \<Rightarrow> bool" where
  "ipv6_int_ok ip_str =
     (if ip_str = [] then False
      else
        let parts = str_split CHR '':'' ip_str in
        if length parts < 3 then False
        else if CHR ''.'' \<in> set (last parts) then
          (case ipv4_address (last parts) of
             None \<Rightarrow> False
           | Some ipv4_int \<Rightarrow>
               ipv6_parts_ok
                 (butlast parts @ [hex4 (ipv4_int div 65536 mod 65536), hex4 (ipv4_int mod 65536)]))
        else ipv6_parts_ok parts)"

text \<open>\<open>IPv6Address(s)\<close> succeeds: no \<open>/\<close>, a well-formed scope id if any, an address.\<close>

definition ipv6_address_ok :: "string \<Rightarrow> bool" where
  "ipv6_address_ok addr_str =
     (if CHR ''/'' \<in> set addr_str then False
      else if CHR ''%'' \<in> set addr_str
              \<and> (after CHR ''%'' addr_str = [] \<or> CHR ''%'' \<in> set (after CHR ''%'' addr_str))
      then False
      else ipv6_int_ok (before CHR ''%'' addr_str))"

text \<open>
  \<open>_check_bracketed_host\<close> returns: an IPvFuture literal matching
  \<open>\Av[a-fA-F0-9]+\..+\Z\<close>, or an address that \<open>ip_address\<close> parses and that is
  not an IPv4 address.
\<close>

definition check_bracketed_host :: "string \<Rightarrow> bool" where
  "check_bracketed_host hostname =
     (if startswith hostname ''v'' then
        (let rest = tl hostname;
             hex = takeWhile (\<lambda>c. c \<in> set hexdigits) rest;
             tail = dropWhile (\<lambda>c. c \<in> set hexdigits) rest
         in hex \<noteq> [] \<and> startswith tail ''.'' \<and> length tail \<ge> 2
            \<and> CHR 0x0A \<notin> set (tl tail))
      else if ipv4_address hostname \<noteq> None then False
      else ipv6_address_ok hostname)"

section \<open>The standard library's URL functions\<close>

text \<open>
  \<open>safe_join\<close> resolves the name with \<open>urljoin\<close> of Python's \<open>urllib.parse\<close>.
  The functions below follow that module (CPython 3.11) function by function, for text
  arguments and \<open>allow_fragments=True\<close>. A parse result is the tuple the library
  returns.

  \<open>_checknetloc\<close> is left out. It raises \<open>ValueError\<close> for a network location whose
  NFKC form holds one of \<open>/ ? # @ :\<close> that the location itself does not hold; no text
  of code points below 256 has such a form, so on the text of this model the check never
  raises. On text beyond code point 255 it is one more source of \<open>ValueError\<close> (a
  network location that holds U+2100, say). The theorems below therefore say that
  \<open>ValueError\<close> is the only error of URL resolution, and give an input on which it
  occurs; they do not say on which inputs it cannot occur, apart from the names that have
  no network location at all.
\<close>

definition uses_relative :: "string list" where
  "uses_relative = ['''', ''ftp'', ''http'', ''gopher'', ''nntp'', ''imap'',
     ''wais'', ''file'', ''https'', ''shttp'', ''mms'',
     ''prospero'', ''rtsp'', ''rtsps'', ''rtspu'', ''sftp'',
     ''svn'', ''svn+ssh'', ''ws'', ''wss'']"

definition uses_netloc :: "string list" where
  "uses_netloc = ['''', ''ftp'', ''http'', ''gopher'', ''nntp'', ''telnet'',
     ''imap'', ''wais'', ''file'', ''mms'', ''https'', ''shttp'',
     ''snews'', ''prospero'', ''rtsp'', ''rtsps'', ''rtspu'', ''rsync'',
     ''svn'', ''svn+ssh'', ''sftp'', ''nfs'', ''git'', ''git+ssh'',
     ''ws'', ''wss'']"

definition uses_params :: "string list" where
  "uses_params = ['''', ''ftp'', ''hdl'', ''prospero'', ''http'', ''imap'',
     ''https'', ''shttp'', ''rtsp'', ''rtsps'', ''rtspu'', ''sip'',
     ''sips'', ''mms'', ''sftp'', ''tel'']"

definition scheme_chars :: string where
  "scheme_chars = ascii_lowercase @ ascii_uppercase @ digits @ ''+-.''"

text \<open>\<open>_WHATWG_C0_CONTROL_OR_SPACE\<close>: the characters 0 to 32.\<close>

definition c0_control_or_space :: string where
  "c0_control_or_space = map char_of [0 ..< 33 :: nat]"

text \<open>\<open>_UNSAFE_URL_BYTES_TO_REMOVE\<close>: tab, carriage return, line feed.\<close>

definition unsafe_url_bytes :: string where
  "unsafe_url_bytes = [CHR 0x09, CHR 0x0D, CHR 0x0A]"

definition remove_unsafe :: "string \<Rightarrow> string" where
  "remove_unsafe s = filter (\<lambda>c. c \<notin> set unsafe_url_bytes) s"

text \<open>\<open>_splitnetloc(url, 2)\<close>: the text between the two slashes and the next delimiter.\<close>

definition splitnetloc :: "string \<Rightarrow> string \<times> string" where
  "splitnetloc url =
     (takeWhile (\<lambda>c. c \<notin> set ''/?#'') (drop 2 url),
      dropWhile (\<lambda>c. c \<notin> set ''/?#'') (drop 2 url))"

text \<open>The scheme of \<open>urlsplit\<close>: the given default, or the text before the first colon.\<close>

definition split_scheme :: "string \<Rightarrow> string \<Rightarrow> string \<times> string" where
  "split_scheme scheme url =
     (case str_find CHR '':'' url of
        None \<Rightarrow> (scheme, url)
      | Some i \<Rightarrow>
          if i > 0 \<and> is_ascii_alpha (hd url)
             \<and> list_all (\<lambda>c. c \<in> set scheme_chars) (take i url)
          then (lower (take i url), drop (i + 1) url)
          else (scheme, url))"

text \<open>\<open>urlsplit(url, scheme)\<close>: scheme, netloc, path, query, fragment.\<close>

definition urlsplit ::
  "string \<Rightarrow> string \<Rightarrow> exn + (string \<times> string \<times> string \<times> string \<times> string)" where
  "urlsplit url0 scheme0 =
     (let url1 = remove_unsafe (lstrip c0_control_or_space url0);
          scheme1 = remove_unsafe (rstrip c0_control_or_space (lstrip c0_control_or_space scheme0));
          (scheme, url2) = split_scheme scheme1 url1;
          (netloc, url3) = (if take 2 url2 = ''//'' then splitnetloc url2 else ('''', url2))
      in
        if (CHR ''['' \<in> set netloc \<and> CHR '']'' \<notin> set netloc)
           \<or> (CHR '']'' \<in> set netloc \<and> CHR ''['' \<notin> set netloc)
        then Inl ValueError
        else if CHR ''['' \<in> set netloc \<and> CHR '']'' \<in> set netloc
                \<and> \<not> check_bracketed_host (before CHR '']'' (after CHR ''['' netloc))
        then Inl ValueError
        else
          let (url4, fragment) =
                (if CHR ''#'' \<in> set url3 then (before CHR ''#'' url3, after CHR ''#'' url3)
                 else (url3, ''''));
              (url5, query) =
                (if CHR ''?'' \<in> set url4 then (before CHR ''?'' url4, after CHR ''?'' url4)
                 else (url4, ''''))
          in Inr (scheme, netloc, url5, query, fragment))"

text \<open>\<open>_splitparams(url)\<close>, called for a \<open>url\<close> that holds a semicolon.\<close>

definition splitparams :: "string \<Rightarrow> string \<times> string" where
  "splitparams url =
     (if CHR ''/'' \<in> set url then
        (let last_segment = last (str_split CHR ''/'' url);
             dir = take (length url - length last_segment) url
         in if CHR '';'' \<in> set last_segment
            then (dir @ before CHR '';'' last_segment, after CHR '';'' last_segment)
            else (url, ''''))
      else (before CHR '';'' url, after CHR '';'' url))"

text \<open>\<open>urlparse(url, scheme)\<close>: scheme, netloc, path, params, query, fragment.\<close>

definition urlparse ::
  "string \<Rightarrow> string
     \<Rightarrow> exn + (string \<times> string \<times> string \<times> string \<times> string \<times> string)" where
  "urlparse url0 scheme0 =
     (case urlsplit url0 scheme0 of
        Inl e \<Rightarrow> Inl e
      | Inr (scheme, netloc, url, query, fragment) \<Rightarrow>
          let (url', params) =
                (if scheme \<in> set uses_params \<and> CHR '';'' \<in> set url then splitparams url
                 else (url, ''''))
          in Inr (scheme, netloc, url', params, query, fragment))"

definition urlunsplit :: "string \<times> string \<times> string \<times> string \<times> string \<Rightarrow> string" where
  "urlunsplit components =
     (case components of (scheme, netloc, url0, query, fragment) \<Rightarrow>
        let url1 =
              (if netloc \<noteq> [] \<or> (scheme \<noteq> [] \<and> scheme \<in> set uses_netloc)
                  \<or> take 2 url0 = ''//''
               then ''//'' @ netloc
                      @ (if url0 \<noteq> [] \<and> take 1 url0 \<noteq> ''/'' then ''/'' @ url0 else url0)
               else url0);
            url2 = (if scheme \<noteq> [] then scheme @ '':'' @ url1 else url1);
            url3 = (if query \<noteq> [] then url2 @ ''?'' @ query else url2)
        in if fragment \<noteq> [] then url3 @ ''#'' @ fragment else url3)"

definition urlunparse ::
  "string \<times> string \<times> string \<times> string \<times> string \<times> string \<Rightarrow> string" where
  "urlunparse components =
     (case components of (scheme, netloc, url, params, query, fragment) \<Rightarrow>
        urlunsplit (scheme, netloc,
                    (if params \<noteq> [] then url @ '';'' @ params else url),
                    query, fragment))"

text \<open>
  \<open>segments[1:-1] = filter(None, segments[1:-1])\<close>: the empty segments strictly
  between the first and the last are dropped.
\<close>

definition filter_inner :: "string list \<Rightarrow> string list" where
  "filter_inner segments =
     (if length segments < 2 then segments
      else hd segments # filter (\<lambda>seg. seg \<noteq> []) (butlast (tl segments)) @ [last segments])"

text \<open>The loop of \<open>urljoin\<close> over the segments, on the list \<open>resolved_path\<close>.\<close>

fun resolve_segments :: "string list \<Rightarrow> string list \<Rightarrow> string list" where
  "resolve_segments resolved_path [] = resolved_path"
| "resolve_segments resolved_path (seg # segments) =
     (if seg = ''..'' then resolve_segments (butlast resolved_path) segments
      else if seg = ''.'' then resolve_segments resolved_path segments
      else resolve_segments (resolved_path @ [seg]) segments)"

definition urljoin :: "string \<Rightarrow> string \<Rightarrow> exn + string" where
  "urljoin base url =
     (if base = [] then Inr url
      else if url = [] then Inr base
      else
        case urlparse base '''' of
          Inl e \<Rightarrow> Inl e
        | Inr (bscheme, bnetloc, bpath, bparams, bquery, bfragment) \<Rightarrow>
        (case urlparse url bscheme of
          Inl e \<Rightarrow> Inl e
        | Inr (scheme, netloc0, path, params, query, fragment) \<Rightarrow>
            if scheme \<noteq> bscheme \<or> scheme \<notin> set uses_relative then Inr url
            else if scheme \<in> set uses_netloc \<and> netloc0 \<noteq> [] then
              Inr (urlunparse (scheme, netloc0, path, params, query, fragment))
            else
              let netloc = (if scheme \<in> set uses_netloc then bnetloc else netloc0) in
              if path = [] \<and> params = [] then
                Inr (urlunparse (scheme, netloc, bpath, bparams,
                                 (if query = [] then bquery else query), fragment))
              else
                let base_parts0 = str_split CHR ''/'' bpath;
                    base_parts = (if last base_parts0 \<noteq> [] then butlast base_parts0
                                  else base_parts0);
                    segments = (if take 1 path = ''/'' then str_split CHR ''/'' path
                                else filter_inner (base_parts @ str_split CHR ''/'' path));
                    resolved0 = resolve_segments [] segments;
                    resolved_path = (if last segments \<in> {''.'', ''..''} then resolved0 @ ['''']
                                     else resolved0);
                    joined = str_join ''/'' resolved_path
                in Inr (urlunparse (scheme, netloc, (if joined = [] then ''/'' else joined),
                                    params, query, fragment))))"

section \<open>The path resolver\<close>

text \<open>
  \<open>force_text\<close> is the identity on text, the only kind of argument the model has.
  \<open>normalize_base\<close> is the base as \<open>safe_join\<close> computes it before resolving: the
  assignment to \<open>base\<close> and the special case for \<open>//\<close>.
\<close>

definition normalize_base :: "string \<Rightarrow> string" where
  "normalize_base base =
     (let base' = ''/'' @ rstrip ''/'' (lstrip ''/'' base) @ ''/''
      in if base' = ''//'' then ''/'' else base')"

text \<open>The joined path before the containment check; the library may raise.\<close>

definition resolved_url :: "string \<Rightarrow> string \<Rightarrow> exn + string" where
  "resolved_url base path =
     (case urljoin (normalize_base base) (lstrip ''/'' path) of
        Inl e \<Rightarrow> Inl e
      | Inr joined \<Rightarrow> Inr (collapse_slashes joined))"

definition safe_join :: "string \<Rightarrow> string \<Rightarrow> exn + string" where
  "safe_join base path =
     (case resolved_url base path of
        Inl e \<Rightarrow> Inl e
      | Inr resolved \<Rightarrow>
          if \<not> startswith resolved (normalize_base base)
          then Inl (SuspiciousFileOperation resolved (normalize_base base))
          else Inr resolved)"

text \<open>Two separators in a row somewhere in the text: what \<open>collapse_slashes\<close> removes.\<close>

fun has_double_slash :: "string \<Rightarrow> bool" where
  "has_double_slash (a # b # cs) =
     ((a = CHR ''/'' \<and> b = CHR ''/'') \<or> has_double_slash (b # cs))"
| "has_double_slash cs = False"

text \<open>
  The words in which the names that \<open>safe_join\<close> leaves unchanged are described. A
  text begins with a scheme when it holds a colon and the text before its first colon is
  not empty, begins with an ASCII letter and is made of letters, digits, \<open>+\<close>, \<open>-\<close> and
  \<open>.\<close> only.
\<close>

definition scheme_like :: "string \<Rightarrow> bool" where
  "scheme_like u =
     (CHR '':'' \<in> set u \<and> before CHR '':'' u \<noteq> [] \<and> is_ascii_alpha (hd u)
      \<and> list_all (\<lambda>c. c \<in> set scheme_chars) (before CHR '':'' u))"

text \<open>
  The parts of a reference that has neither scheme nor network location: the fragment
  is the text after the first \<open>#\<close>; the query is the text after the first \<open>?\<close> of
  what is before the fragment; the parameters are the text after the first \<open>;\<close> of the
  last segment of what is before the query; the path is what is left of that, without
  the parameters.
\<close>

definition ref_fragment :: "string \<Rightarrow> string" where
  "ref_fragment u = after CHR ''#'' u"

definition ref_query :: "string \<Rightarrow> string" where
  "ref_query u = after CHR ''?'' (before CHR ''#'' u)"

definition ref_hier :: "string \<Rightarrow> string" where
  "ref_hier u = before CHR ''?'' (before CHR ''#'' u)"

definition ref_params :: "string \<Rightarrow> string" where
  "ref_params u = after CHR '';'' (last (str_split CHR ''/'' (ref_hier u)))"

definition ref_path :: "string \<Rightarrow> string" where
  "ref_path u =
     take (length (ref_hier u) - length (last (str_split CHR ''/'' (ref_hier u)))) (ref_hier u)
       @ before CHR '';'' (last (str_split CHR ''/'' (ref_hier u)))"

text \<open>
  No delimiter of a reference is followed by an empty part: a \<open>#\<close> by an empty
  fragment, a \<open>?\<close> by an empty query, the \<open>;\<close> of the last path segment by empty
  parameters. (Putting the parts together again drops the delimiter of an empty part.)
\<close>

definition tails_kept :: "string \<Rightarrow> bool" where
  "tails_kept u =
     ((CHR ''#'' \<in> set u \<longrightarrow> ref_fragment u \<noteq> [])
      \<and> (CHR ''?'' \<in> set (before CHR ''#'' u) \<longrightarrow> ref_query u \<noteq> [])
      \<and> (CHR '';'' \<in> set (last (str_split CHR ''/'' (ref_hier u))) \<longrightarrow> ref_params u \<noteq> []))"

text \<open>No segment of the path is \<open>.\<close> or \<open>..\<close>.\<close>

definition dot_free :: "string \<Rightarrow> bool" where
  "dot_free p =
     (''.'' \<notin> set (str_split CHR ''/'' p) \<and> ''..'' \<notin> set (str_split CHR ''/'' p))"

text \<open>
  The normalized root \<open>b\<close> and the name without its leading separators \<open>u\<close> for which
  resolving \<open>u\<close> against \<open>b\<close> gives \<open>b\<close> followed by \<open>u\<close>:
  \<^item> \<open>b\<close> followed by \<open>u\<close> never has two separators in a row;
  \<^item> and, unless \<open>u\<close> is empty: neither holds a tab, carriage return or line feed;
    \<open>u\<close> does not begin with a control character or a space, nor with a scheme; no
    delimiter of \<open>u\<close> is followed by an empty part; \<open>b\<close> holds no \<open>#\<close>;
  \<^item> and, when \<open>u\<close> begins with \<open>?\<close> or \<open>#\<close> (its path and parameters are empty, so
    the path of \<open>b\<close> is kept as it is): \<open>b\<close> holds no \<open>?\<close>, or else \<open>u\<close> begins with
    \<open>#\<close> and no delimiter of \<open>b\<close> is followed by an empty part;
  \<^item> and, when \<open>u\<close> begins otherwise: \<open>b\<close> holds no \<open>?\<close>, and neither \<open>b\<close> nor the
    path of \<open>u\<close> has a segment \<open>.\<close> or \<open>..\<close>.
\<close>

definition joins_unchanged :: "string \<Rightarrow> string \<Rightarrow> bool" where
  "joins_unchanged b u =
     (\<not> has_double_slash (b @ u)
      \<and> (u = []
          \<or> (list_all (\<lambda>c. c \<notin> set unsafe_url_bytes) (b @ u)
              \<and> hd u \<notin> set c0_control_or_space
              \<and> \<not> scheme_like u
              \<and> tails_kept u
              \<and> CHR ''#'' \<notin> set b
              \<and> (if hd u = CHR ''?'' \<or> hd u = CHR ''#''
                  then CHR ''?'' \<in> set b \<longrightarrow> hd u = CHR ''#'' \<and> tails_kept b
                  else CHR ''?'' \<notin> set b \<and> dot_free b \<and> dot_free (ref_path u)))))"

text \<open>\<open>smart_str(name, encoding='utf-8')\<close> returns text unchanged.\<close>

definition prepare_name :: "string \<Rightarrow> string" where
  "prepare_name name = name"

definition remove_prefix :: "string \<Rightarrow> string \<Rightarrow> string" where
  "remove_prefix target prefix =
     (if startswith target prefix then drop (length prefix) target else target)"

section \<open>The object store\<close>

text \<open>
  The bucket of the \<open>gcloud\<close> client is the collaborator of the adapter. It is modelled
  by what the adapter can observe of it: the objects it holds, the error a request fails
  with, and a log of the upload requests it has received.
  \<^item> \<open>blobs\<close>: the objects, each with its key, its bytes and the two timestamps the
    service keeps as RFC 3339 text;
  \<^item> \<open>fault\<close>: when set to \<open>(e, k)\<close>, every request raises \<open>e\<close>, and an upload has
    read \<open>k\<close> bytes of the file (or all of it, if shorter) when it is raised;
  \<^item> \<open>upload_calls\<close>: one entry, key and bytes offered, for each \<open>upload_from_file\<close>
    that reaches the service, whether it then succeeds or not;
  \<^item> \<open>clock\<close>: the service's current time, as it writes it into an object.
\<close>

record remote_blob =
  blob_name :: string
  blob_content :: string
  blob_updated :: string
  blob_time_created :: "string option"

record remote =
  blobs :: "remote_blob list"
  fault :: "(exn \<times> nat) option"
  upload_calls :: "(string \<times> string) list"
  clock :: string

text \<open>\<open>bucket.get_blob(name)\<close>: the object, or \<open>None\<close> when there is none.\<close>

definition get_blob :: "string \<Rightarrow> remote \<Rightarrow> exn + remote_blob option" where
  "get_blob key w =
     (case fault w of
        Some (e, k) \<Rightarrow> Inl e
      | None \<Rightarrow> Inr (find (\<lambda>b. blob_name b = key) (blobs w)))"

text \<open>\<open>bucket.delete_blob(name)\<close>: raises \<open>NotFound\<close> when there is no such object.\<close>

definition delete_blob :: "string \<Rightarrow> remote \<Rightarrow> (exn + unit) \<times> remote" where
  "delete_blob key w =
     (case fault w of
        Some (e, k) \<Rightarrow> (Inl e, w)
      | None \<Rightarrow>
          if key \<notin> set (map blob_name (blobs w)) then (Inl NotFound, w)
          else (Inr (), w\<lparr>blobs := filter (\<lambda>b. blob_name b \<noteq> key) (blobs w)\<rparr>))"

text \<open>The service stores bytes under a key: a new object, or new content of an old one.\<close>

definition put_blob :: "string \<Rightarrow> string \<Rightarrow> remote \<Rightarrow> remote" where
  "put_blob key payload w =
     (if key \<in> set (map blob_name (blobs w)) then
        w\<lparr>blobs := map (\<lambda>b. if blob_name b = key
                              then b\<lparr>blob_content := payload, blob_updated := clock w\<rparr>
                              else b) (blobs w)\<rparr>
      else
        w\<lparr>blobs := blobs w @
              [\<lparr>blob_name = key, blob_content = payload, blob_updated = clock w,
                blob_time_created = Some (clock w)\<rparr>]\<rparr>)"

text \<open>
  \<open>bucket.list_blobs(prefix=..., delimiter=...)\<close>: the keys that start with the prefix
  and hold no delimiter after it, and (the iterator's \<open>prefixes\<close>, a set) the prefixes up
  to the first delimiter of the other keys that start with the prefix.
\<close>

definition list_blobs :: "string \<Rightarrow> char \<Rightarrow> remote \<Rightarrow> exn + (string list \<times> string list)" where
  "list_blobs prefix delimiter w =
     (case fault w of
        Some (e, k) \<Rightarrow> Inl e
      | None \<Rightarrow>
          let matching = filter (\<lambda>n. startswith n prefix) (map blob_name (blobs w));
              items = filter (\<lambda>n. delimiter \<notin> set (drop (length prefix) n)) matching;
              nested = filter (\<lambda>n. delimiter \<in> set (drop (length prefix) n)) matching;
              prefixes = remdups (map (\<lambda>n. prefix @ before delimiter (drop (length prefix) n)
                                            @ [delimiter]) nested)
          in Inr (items, prefixes))"

section \<open>The temporary file\<close>

text \<open>
  A \<open>SpooledTemporaryFile\<close> is its bytes, its cursor and whether it is closed; where
  the bytes are kept (memory or disk, the \<open>max_size\<close> threshold) changes none of the
  three. Every operation on a closed file raises \<open>ValueError\<close>, except \<open>close\<close>.
\<close>

record spooled_file =
  file_buf :: string
  file_pos :: nat
  file_closed :: bool

definition new_spooled_file :: spooled_file where
  "new_spooled_file = \<lparr>file_buf = [], file_pos = 0, file_closed = False\<rparr>"

text \<open>Writing at the cursor: overwrites, extends, and pads with zeros after a far seek.\<close>

definition write_at :: "nat \<Rightarrow> string \<Rightarrow> string \<Rightarrow> string" where
  "write_at p content buffer =
     (if content = [] then buffer
      else take p buffer @ replicate (p - length buffer) (CHR 0x00) @ content
           @ drop (p + length content) buffer)"

definition file_write :: "string \<Rightarrow> spooled_file \<Rightarrow> (exn + unit) \<times> spooled_file" where
  "file_write content f =
     (if file_closed f then (Inl ValueError, f)
      else (Inr (), f\<lparr>file_buf := write_at (file_pos f) content (file_buf f),
                       file_pos := file_pos f + length content\<rparr>))"

text \<open>\<open>read(n)\<close>, and \<open>read()\<close> as \<open>None\<close>: the bytes from the cursor on.\<close>

definition file_read :: "nat option \<Rightarrow> spooled_file \<Rightarrow> (exn + string) \<times> spooled_file" where
  "file_read n f =
     (if file_closed f then (Inl ValueError, f)
      else
        let available = drop (file_pos f) (file_buf f);
            got = (case n of None \<Rightarrow> available | Some k \<Rightarrow> take k available)
        in (Inr got, f\<lparr>file_pos := file_pos f + length got\<rparr>))"

text \<open>\<open>seek(p)\<close>, from the start of the file.\<close>

definition file_seek :: "nat \<Rightarrow> spooled_file \<Rightarrow> (exn + unit) \<times> spooled_file" where
  "file_seek p f =
     (if file_closed f then (Inl ValueError, f)
      else (Inr (), f\<lparr>file_pos := p\<rparr>))"

text \<open>\<open>close()\<close>: the buffer is released; closing a closed file does nothing.\<close>

definition file_close :: "spooled_file \<Rightarrow> spooled_file" where
  "file_close f = \<lparr>file_buf = [], file_pos = 0, file_closed = True\<rparr>"

text \<open>
  \<open>blob.upload_from_file(file_obj, rewind=...)\<close> for the object with the given key:
  the file is rewound if asked, then read from its cursor to its end, and the bytes
  become the content of the object. A request that fails changes no object.
\<close>

definition upload_from_file ::
  "string \<Rightarrow> spooled_file \<Rightarrow> bool \<Rightarrow> remote \<Rightarrow> (exn + unit) \<times> spooled_file \<times> remote" where
  "upload_from_file key file_obj rewind w =
     (if file_closed file_obj then (Inl ValueError, file_obj, w)
      else
        let f0 = (if rewind then file_obj\<lparr>file_pos := 0\<rparr> else file_obj);
            payload = drop (file_pos f0) (file_buf f0);
            w1 = w\<lparr>upload_calls := upload_calls w @ [(key, payload)]\<rparr>
        in case fault w of
             Some (e, k) \<Rightarrow>
               (Inl e, f0\<lparr>file_pos := file_pos f0 + min k (length payload)\<rparr>, w1)
           | None \<Rightarrow>
               (Inr (), f0\<lparr>file_pos := file_pos f0 + length payload\<rparr>,
                put_blob key payload w1))"

section \<open>The buffered remote file\<close>

text \<open>
  \<open>GCloudFile\<close>: the flag \<open>_dirty\<close>, the temporary file \<open>_tmpfile\<close> (also the
  \<open>file\<close> of the Django \<open>File\<close> it extends) and \<open>_blob\<close>, the handle of the remote
  object, which is its key. The methods return the exception or the value, and the
  object as the call leaves it: an exception does not undo the assignments before it.
\<close>

record gcloud_file =
  dirty :: bool
  tmpfile :: spooled_file
  blob :: string

definition gcloud_file_init :: "string \<Rightarrow> gcloud_file" where
  "gcloud_file_init blob_key = \<lparr>dirty = False, tmpfile = new_spooled_file, blob = blob_key\<rparr>"

definition gcloud_file_write :: "string \<Rightarrow> gcloud_file \<Rightarrow> (exn + unit) \<times> gcloud_file" where
  "gcloud_file_write content self =
     (let self1 = self\<lparr>dirty := True\<rparr>;
          (r, t) = file_write content (tmpfile self1)
      in (r, self1\<lparr>tmpfile := t\<rparr>))"

text \<open>\<open>read\<close> and \<open>seek\<close> are the temporary file's, through the proxy of \<open>File\<close>.\<close>

definition gcloud_file_read :: "nat option \<Rightarrow> gcloud_file \<Rightarrow> (exn + string) \<times> gcloud_file" where
  "gcloud_file_read n self =
     (let (r, t) = file_read n (tmpfile self) in (r, self\<lparr>tmpfile := t\<rparr>))"

definition gcloud_file_seek :: "nat \<Rightarrow> gcloud_file \<Rightarrow> (exn + unit) \<times> gcloud_file" where
  "gcloud_file_seek p self =
     (let (r, t) = file_seek p (tmpfile self) in (r, self\<lparr>tmpfile := t\<rparr>))"

definition gcloud_file_close ::
  "gcloud_file \<Rightarrow> remote \<Rightarrow> (exn + unit) \<times> gcloud_file \<times> remote" where
  "gcloud_file_close self w =
     (if dirty self then
        (case upload_from_file (blob self) (tmpfile self) True w of
           (Inl e, t, w') \<Rightarrow> (Inl e, self\<lparr>tmpfile := t\<rparr>, w')
         | (Inr u, t, w') \<Rightarrow>
             (Inr (), self\<lparr>tmpfile := file_close t, dirty := False\<rparr>, w'))
      else (Inr (), self\<lparr>tmpfile := file_close (tmpfile self)\<rparr>, w))"

text \<open>
  What a caller does with an open file between opening and closing it: a sequence of
  writes, reads and seeks. The results of the calls are dropped; the object is kept.
\<close>

datatype file_op = Write string | Read "nat option" | Seek nat

fun run_op :: "file_op \<Rightarrow> gcloud_file \<Rightarrow> gcloud_file" where
  "run_op (Write content) self = snd (gcloud_file_write content self)"
| "run_op (Read n) self = snd (gcloud_file_read n self)"
| "run_op (Seek p) self = snd (gcloud_file_seek p self)"

definition run_ops :: "file_op list \<Rightarrow> gcloud_file \<Rightarrow> gcloud_file" where
  "run_ops ops self = foldl (\<lambda>f op. run_op op f) self ops"

fun is_write :: "file_op \<Rightarrow> bool" where
  "is_write (Write content) = True"
| "is_write (Read n) = False"
| "is_write (Seek p) = False"

fun written :: "file_op \<Rightarrow> string" where
  "written (Write content) = content"
| "written (Read n) = []"
| "written (Seek p) = []"

fun is_seek :: "file_op \<Rightarrow> bool" where
  "is_seek (Write content) = False"
| "is_seek (Read n) = False"
| "is_seek (Seek p) = True"

section \<open>The storage\<close>

text \<open>
  \<open>DjangoGCloudStorage\<close>, with its bucket already fetched: the methods take the
  bucket's state and return it. \<open>bucket_subdir\<close> is the constant of \<open>__init__\<close>.
  A method \<open>m\<close> of the class is \<open>storage_m\<close> here (\<open>_save\<close> is \<open>storage_save\<close>, \<open>size\<close>
  is \<open>storage_size\<close>), and a method \<open>m\<close> of \<open>GCloudFile\<close> is \<open>gcloud_file_m\<close>.
\<close>

definition bucket_subdir :: string where
  "bucket_subdir = ''''"

text \<open>
  \<open>blob.download_to_file(file_obj)\<close> hands the content to \<open>file_obj.write\<close>, chunk by
  chunk; the transfer library's chunk size is 1 MiB when the blob sets none. An empty
  object is taken to cause no call of \<open>write\<close>.
\<close>

definition default_chunksize :: nat where
  "default_chunksize = 1048576"

function chunks_of :: "nat \<Rightarrow> string \<Rightarrow> string list" where
  "chunks_of n s =
     (if s = [] then []
      else if n = 0 then [s]
      else take n s # chunks_of n (drop n s))"
  by pat_completeness auto
termination
  by (relation "measure (\<lambda>(n, s). length s)") auto

declare chunks_of.simps [simp del]

fun write_chunks :: "string list \<Rightarrow> gcloud_file \<Rightarrow> (exn + unit) \<times> gcloud_file" where
  "write_chunks [] file_obj = (Inr (), file_obj)"
| "write_chunks (chunk # chunks) file_obj =
     (case gcloud_file_write chunk file_obj of
        (Inl e, f) \<Rightarrow> (Inl e, f)
      | (Inr u, f) \<Rightarrow> write_chunks chunks f)"

definition download_to_file ::
  "remote_blob \<Rightarrow> gcloud_file \<Rightarrow> remote \<Rightarrow> (exn + unit) \<times> gcloud_file" where
  "download_to_file b file_obj w =
     (case fault w of
        Some (e, k) \<Rightarrow> (Inl e, file_obj)
      | None \<Rightarrow> write_chunks (chunks_of default_chunksize (blob_content b)) file_obj)"

text \<open>\<open>_save(name, content)\<close>: \<open>content\<close> is a file, uploaded from its cursor.\<close>

definition storage_save ::
  "string \<Rightarrow> spooled_file \<Rightarrow> remote \<Rightarrow> (exn + string) \<times> spooled_file \<times> remote" where
  "storage_save name0 content w =
     (case safe_join bucket_subdir name0 of
        Inl e \<Rightarrow> (Inl e, content, w)
      | Inr joined \<Rightarrow>
          (let name = prepare_name joined in
          (case upload_from_file name content False w of
            (Inl e, content', w') \<Rightarrow> (Inl e, content', w')
          | (Inr u, content', w') \<Rightarrow> (Inr name, content', w'))))"

text \<open>
  \<open>_open(name, mode)\<close>: \<open>get_blob\<close> gives \<open>None\<close> for a missing object, and the call of
  \<open>download_to_file\<close> on it raises \<open>AttributeError\<close>.
\<close>

definition storage_open :: "string \<Rightarrow> string \<Rightarrow> remote \<Rightarrow> exn + gcloud_file" where
  "storage_open name0 mode w =
     (case safe_join bucket_subdir name0 of
        Inl e \<Rightarrow> Inl e
      | Inr joined \<Rightarrow>
          (let name = prepare_name joined in
          (case get_blob name w of
            Inl e \<Rightarrow> Inl e
          | Inr None \<Rightarrow> Inl AttributeError
          | Inr (Some b) \<Rightarrow>
              (case download_to_file b (gcloud_file_init (blob_name b)) w of
                 (Inl e, f) \<Rightarrow> Inl e
               | (Inr u, f) \<Rightarrow>
                   (case gcloud_file_seek 0 f of
                      (Inl e, f') \<Rightarrow> Inl e
                    | (Inr u', f') \<Rightarrow> Inr f')))))"

text \<open>
  A point in time is written \<open>Datetime t\<close> for the RFC 3339 text \<open>t\<close> the service
  keeps, which the client library and \<open>strptime\<close> parse.
\<close>

datatype datetime = Datetime string

text \<open>
  \<open>datetime.strptime(value, _RFC3339_MICROS)\<close>, where the format of the client library
  is \<open>%Y-%m-%dT%H:%M:%S.%fZ\<close>. The standard library turns the format into a regular
  expression, matched without regard to case, in which every directive is a group of
  alternatives; a timestamp without a fraction of a second does not match. The groups
  hold digits and spaces only, so each field is the text before the next delimiter.

  An alternative is a list of character classes, a group a list of alternatives.
\<close>

definition matches_alternative :: "string list \<Rightarrow> string \<Rightarrow> bool" where
  "matches_alternative alternative s =
     (length s = length alternative \<and> list_all2 (\<lambda>cls c. c \<in> set cls) alternative s)"

definition matches_group :: "string list list \<Rightarrow> string \<Rightarrow> bool" where
  "matches_group alternatives s =
     list_ex (\<lambda>alternative. matches_alternative alternative s) alternatives"

text \<open>\<open>\d\d\d\d\<close>\<close>

definition directive_Y :: "string list list" where
  "directive_Y = [[digits, digits, digits, digits]]"

text \<open>\<open>1[0-2]|0[1-9]|[1-9]\<close>\<close>

definition directive_m :: "string list list" where
  "directive_m = [[''1'', ''012''], [''0'', ''123456789''], [''123456789'']]"

text \<open>\<open>3[0-1]|[1-2]\d|0[1-9]|[1-9]| [1-9]\<close>\<close>

definition directive_d :: "string list list" where
  "directive_d = [[''3'', ''01''], [''12'', digits], [''0'', ''123456789''], [''123456789''],
                  ['' '', ''123456789'']]"

text \<open>\<open>2[0-3]|[0-1]\d|\d\<close>\<close>

definition directive_H :: "string list list" where
  "directive_H = [[''2'', ''0123''], [''01'', digits], [digits]]"

text \<open>\<open>[0-5]\d|\d\<close>\<close>

definition directive_M :: "string list list" where
  "directive_M = [[''012345'', digits], [digits]]"

text \<open>\<open>6[0-1]|[0-5]\d|\d\<close>\<close>

definition directive_S :: "string list list" where
  "directive_S = [[''6'', ''01''], [''012345'', digits], [digits]]"

text \<open>\<open>[0-9]{1,6}\<close>\<close>

definition directive_f :: "string list list" where
  "directive_f = map (\<lambda>k. replicate k digits) [1 ..< 7]"

text \<open>
  The text before and after the first character of the class \<open>cs\<close>, and the fields
  that a list of delimiter classes cuts a text into (the last one is what follows the
  last delimiter).
\<close>

definition cut_first :: "string \<Rightarrow> string \<Rightarrow> (string \<times> string) option" where
  "cut_first cs s =
     (if list_ex (\<lambda>c. c \<in> set cs) s
      then Some (takeWhile (\<lambda>c. c \<notin> set cs) s, drop 1 (dropWhile (\<lambda>c. c \<notin> set cs) s))
      else None)"

fun cut_fields :: "string list \<Rightarrow> string \<Rightarrow> string list option" where
  "cut_fields [] s = Some [s]"
| "cut_fields (cs # delimiters) s =
     (case cut_first cs s of
        None \<Rightarrow> None
      | Some (field, rest) \<Rightarrow> map_option ((#) field) (cut_fields delimiters rest))"

text \<open>\<open>int(s)\<close> for a field of digits, which a space may precede.\<close>

definition field_value :: "string \<Rightarrow> nat" where
  "field_value s = decimal_value (filter (\<lambda>c. c \<noteq> CHR '' '') s)"

definition days_in_month :: "nat \<Rightarrow> nat \<Rightarrow> nat" where
  "days_in_month year month =
     (if month = 2 then
        (if year mod 4 = 0 \<and> (year mod 100 \<noteq> 0 \<or> year mod 400 = 0) then 29 else 28)
      else if month \<in> {4, 6, 9, 11} then 30 else 31)"

text \<open>
  The parse raises \<open>ValueError\<close> when the text does not match the format, when data
  remains after the match, and when the fields are no date or time: the year 0, a day
  beyond the end of the month, a second beyond 59.
\<close>

definition strptime_rfc3339_micros :: "string \<Rightarrow> exn + datetime" where
  "strptime_rfc3339_micros value =
     (case cut_fields [''-'', ''-'', ''Tt'', '':'', '':'', ''.'', ''Zz''] value of
        Some [Y, m, d, H, M, S, f, rest] \<Rightarrow>
          if \<not> (matches_group directive_Y Y \<and> matches_group directive_m m
                 \<and> matches_group directive_d d \<and> matches_group directive_H H
                 \<and> matches_group directive_M M \<and> matches_group directive_S S
                 \<and> matches_group directive_f f)
          then Inl ValueError
          else if rest \<noteq> [] then Inl ValueError
          else if field_value Y = 0
                  \<or> days_in_month (field_value Y) (field_value m) < field_value d
                  \<or> 59 < field_value S
          then Inl ValueError
          else Inr (Datetime value)
      | _ \<Rightarrow> Inl ValueError)"

text \<open>
  \<open>created_time(name)\<close>: \<open>blob._properties\<close> is read without a test of \<open>blob\<close>; the
  property \<open>timeCreated\<close>, when there is one, is parsed by \<open>strptime\<close>, whose error is
  not caught; a function that ends without \<open>return\<close> gives \<open>None\<close>.
\<close>

definition storage_created_time :: "string \<Rightarrow> remote \<Rightarrow> exn + datetime option" where
  "storage_created_time name0 w =
     (case safe_join bucket_subdir name0 of
        Inl e \<Rightarrow> Inl e
      | Inr joined \<Rightarrow>
          (let name = prepare_name joined in
          (case get_blob name w of
            Inl e \<Rightarrow> Inl e
          | Inr None \<Rightarrow> Inl AttributeError
          | Inr (Some b) \<Rightarrow>
              (case blob_time_created b of
                 Some v \<Rightarrow>
                   (case strptime_rfc3339_micros v of
                      Inl e \<Rightarrow> Inl e
                    | Inr naive \<Rightarrow> Inr (Some naive))
               | None \<Rightarrow> Inr None))))"

definition storage_delete :: "string \<Rightarrow> remote \<Rightarrow> (exn + unit) \<times> remote" where
  "storage_delete name0 w =
     (case safe_join bucket_subdir name0 of
        Inl e \<Rightarrow> (Inl e, w)
      | Inr joined \<Rightarrow>
          (let name = prepare_name joined in
          (case delete_blob name w of
            (Inl NotFound, w') \<Rightarrow> (Inr (), w')
          | (Inl e, w') \<Rightarrow> (Inl e, w')
          | (Inr u, w') \<Rightarrow> (Inr (), w'))))"

definition storage_exists :: "string \<Rightarrow> remote \<Rightarrow> exn + bool" where
  "storage_exists name0 w =
     (case safe_join bucket_subdir name0 of
        Inl e \<Rightarrow> Inl e
      | Inr joined \<Rightarrow>
          (let name = prepare_name joined in
          (case get_blob name w of
            Inl e \<Rightarrow> Inl e
          | Inr b \<Rightarrow> Inr (b \<noteq> None))))"

definition storage_size :: "string \<Rightarrow> remote \<Rightarrow> exn + nat option" where
  "storage_size name0 w =
     (case safe_join bucket_subdir name0 of
        Inl e \<Rightarrow> Inl e
      | Inr joined \<Rightarrow>
          (let name = prepare_name joined in
          (case get_blob name w of
            Inl e \<Rightarrow> Inl e
          | Inr None \<Rightarrow> Inr None
          | Inr (Some b) \<Rightarrow> Inr (Some (length (blob_content b))))))"

definition storage_modified_time :: "string \<Rightarrow> remote \<Rightarrow> exn + datetime option" where
  "storage_modified_time name0 w =
     (case safe_join bucket_subdir name0 of
        Inl e \<Rightarrow> Inl e
      | Inr joined \<Rightarrow>
          (let name = prepare_name joined in
          (case get_blob name w of
            Inl e \<Rightarrow> Inl e
          | Inr None \<Rightarrow> Inr None
          | Inr (Some b) \<Rightarrow> Inr (Some (Datetime (blob_updated b))))))"

text \<open>\<open>listdir(path)\<close>: the result is the pair \<open>(dirs, items)\<close>.\<close>

definition storage_listdir :: "string \<Rightarrow> remote \<Rightarrow> exn + (string list \<times> string list)" where
  "storage_listdir path0 w =
     (case safe_join bucket_subdir path0 of
        Inl e \<Rightarrow> Inl e
      | Inr joined \<Rightarrow>
          (let path = prepare_name joined in
          (case list_blobs path CHR ''/'' w of
            Inl e \<Rightarrow> Inl e
          | Inr (names, prefixes) \<Rightarrow>
              let items = map (\<lambda>n. remove_prefix n path) names;
                  dirs = map (\<lambda>p. rstrip ''/'' (remove_prefix p path)) prefixes
              in Inr (sort dirs, sort items))))"

section \<open>Example states\<close>

text \<open>A bucket without objects, and a bucket that holds one object; both answer requests.\<close>

definition empty_bucket :: remote where
  "empty_bucket =
     \<lparr>blobs = [], fault = None, upload_calls = [], clock = ''2015-06-01T12:00:00.000000Z''\<rparr>"

definition one_blob_bucket :: remote where
  "one_blob_bucket =
     \<lparr>blobs = [\<lparr>blob_name = ''/a.txt'', blob_content = ''hello'',
                 blob_updated = ''2015-05-01T08:00:00.000000Z'',
                 blob_time_created = Some ''2015-05-01T08:00:00.000000Z''\<rparr>],
      fault = None, upload_calls = [], clock = ''2015-06-01T12:00:00.000000Z''\<rparr>"

text \<open>The same bucket while the service is failing: an upload reads one byte, then fails.\<close>

definition failing_bucket :: remote where
  "failing_bucket =
     one_blob_bucket\<lparr>fault := Some (ServiceError ''503 Service Unavailable'', 1)\<rparr>"

text \<open>
  Two buckets for the directory listing. The keys of the first are the ones under which
  the storage saves the names \<open>photos/sub/b.jpg\<close> and \<open>photos/a.jpg\<close>; the keys of the
  second are those names themselves.
\<close>

definition photos_bucket :: remote where
  "photos_bucket =
     \<lparr>blobs = [\<lparr>blob_name = ''/photos/sub/b.jpg'', blob_content = ''b'',
                 blob_updated = ''2015-05-01T08:00:00.000000Z'',
                 blob_time_created = Some ''2015-05-01T08:00:00.000000Z''\<rparr>,
               \<lparr>blob_name = ''/photos/a.jpg'', blob_content = ''a'',
                 blob_updated = ''2015-05-01T08:00:00.000000Z'',
                 blob_time_created = Some ''2015-05-01T08:00:00.000000Z''\<rparr>],
      fault = None, upload_calls = [], clock = ''2015-06-01T12:00:00.000000Z''\<rparr>"

definition bare_photos_bucket :: remote where
  "bare_photos_bucket =
     \<lparr>blobs = [\<lparr>blob_name = ''photos/sub/b.jpg'', blob_content = ''b'',
                 blob_updated = ''2015-05-01T08:00:00.000000Z'',
                 blob_time_created = Some ''2015-05-01T08:00:00.000000Z''\<rparr>,
               \<lparr>blob_name = ''photos/a.jpg'', blob_content = ''a'',
                 blob_updated = ''2015-05-01T08:00:00.000000Z'',
                 blob_time_created = Some ''2015-05-01T08:00:00.000000Z''\<rparr>],
      fault = None, upload_calls = [], clock = ''2015-06-01T12:00:00.000000Z''\<rparr>"

section \<open>Facts about URL resolution\<close>

subsection \<open>The only error of URL resolution is \<open>ValueError\<close>\<close>

lemma urlsplit_error: "urlsplit u s = Inl e \<Longrightarrow> e = ValueError"
  by (auto simp: urlsplit_def Let_def split: prod.splits if_splits)

lemma urlparse_error: "urlparse u s = Inl e \<Longrightarrow> e = ValueError"
  by (auto simp: urlparse_def Let_def split: sum.splits prod.splits if_splits dest: urlsplit_error)

lemma urljoin_error: "urljoin b u = Inl e \<Longrightarrow> e = ValueError"
  unfolding urljoin_def
  by (auto simp: Let_def split: sum.splits prod.splits if_splits dest: urlparse_error)

lemma resolved_url_error: "resolved_url R N = Inl e \<Longrightarrow> e = ValueError"
  by (auto simp: resolved_url_def split: sum.splits dest: urljoin_error)

lemma rstrip_prefix: "x = rstrip cs x @ rev (takeWhile (\<lambda>c. c \<in> set cs) (rev x))"
  unfolding rstrip_def
  by (metis rev_append rev_rev_ident takeWhile_dropWhile_id)

lemma lstrip_hd: "lstrip cs x \<noteq> [] \<Longrightarrow> hd (lstrip cs x) \<notin> set cs"
  using hd_dropWhile [of "\<lambda>c. c \<in> set cs" x] by (simp add: lstrip_def)

lemma rstrip_last: "rstrip cs x \<noteq> [] \<Longrightarrow> last (rstrip cs x) \<notin> set cs"
  using hd_dropWhile [of "\<lambda>c. c \<in> set cs" "rev x"]
  by (simp add: rstrip_def last_rev)

lemma rstrip_hd: "rstrip cs x \<noteq> [] \<Longrightarrow> hd (rstrip cs x) = hd x"
  using rstrip_prefix [of x cs] by (metis hd_append2)

lemma rstrip_nonempty: "rstrip cs x \<noteq> [] \<Longrightarrow> x \<noteq> []"
  by (auto simp: rstrip_def)

lemma normalize_base_shape:
  "(rstrip ''/'' (lstrip ''/'' R) = [] \<and> normalize_base R = ''/'')
   \<or> (rstrip ''/'' (lstrip ''/'' R) \<noteq> []
       \<and> hd (rstrip ''/'' (lstrip ''/'' R)) \<noteq> CHR ''/''
       \<and> last (rstrip ''/'' (lstrip ''/'' R)) \<noteq> CHR ''/''
       \<and> normalize_base R = ''/'' @ rstrip ''/'' (lstrip ''/'' R) @ ''/'')"
proof (cases "rstrip ''/'' (lstrip ''/'' R) = []")
  case True
  then show ?thesis by (simp add: normalize_base_def)
next
  case False
  have ne: "lstrip ''/'' R \<noteq> []" using rstrip_nonempty [OF False] .
  have "hd (rstrip ''/'' (lstrip ''/'' R)) = hd (lstrip ''/'' R)"
    by (rule rstrip_hd [OF False])
  moreover have "hd (lstrip ''/'' R) \<noteq> CHR ''/''"
    using lstrip_hd [OF ne] by simp
  moreover have "last (rstrip ''/'' (lstrip ''/'' R)) \<noteq> CHR ''/''"
    using rstrip_last [OF False] by simp
  ultimately show ?thesis
    using False
    by (cases "rstrip ''/'' (lstrip ''/'' R)") (simp_all add: normalize_base_def Let_def)
qed

subsection \<open>Splitting and joining at separators\<close>

lemma str_split_nonempty: "str_split d x \<noteq> []"
  by (induction x) (auto simp: Let_def)

lemma join_split: "str_join [d] (str_split d x) = x"
proof (induction x)
  case Nil
  then show ?case by simp
next
  case (Cons c x)
  obtain s ss where r: "str_split d x = s # ss"
    using str_split_nonempty [of d x] by (cases "str_split d x") auto
  with Cons show ?case
    by (cases ss) (auto simp: Let_def)
qed

lemma split_append: "str_split d (x @ d # y) = str_split d x @ str_split d y"
proof (induction x)
  case Nil
  then show ?case by (simp add: Let_def)
next
  case (Cons c x)
  obtain t ts where r: "str_split d x = t # ts"
    using str_split_nonempty [of d x] by (cases "str_split d x") auto
  with Cons show ?case
    by (auto simp: Let_def)
qed

lemma join_append:
  "xs \<noteq> [] \<Longrightarrow> ys \<noteq> [] \<Longrightarrow> str_join d (xs @ ys) = str_join d xs @ d @ str_join d ys"
proof (induction xs)
  case Nil
  then show ?case by simp
next
  case (Cons x xs)
  show ?case
  proof (cases xs)
    case Nil
    with Cons.prems show ?thesis by (cases ys) simp_all
  next
    case (Cons x' xs')
    with Cons.IH Cons.prems show ?thesis by simp
  qed
qed

lemma resolve_segments_plain:
  "\<forall>s \<in> set segs. s \<noteq> ''.'' \<and> s \<noteq> ''..'' \<Longrightarrow> resolve_segments acc segs = acc @ segs"
  by (induction segs arbitrary: acc) auto

lemma collapse_id: "\<not> has_double_slash s \<Longrightarrow> collapse_slashes s = s"
  by (induction s rule: collapse_slashes.induct) auto

lemma has_double_slash_Cons:
  "has_double_slash (a # s) = ((a = CHR ''/'' \<and> s \<noteq> [] \<and> hd s = CHR ''/'') \<or> has_double_slash s)"
  by (cases s) auto

subsection \<open>Parsing a reference without scheme and network location\<close>

lemma before_whole: "c \<notin> set x \<Longrightarrow> before c x = x"
  by (auto simp: before_def)

lemma after_empty: "c \<notin> set x \<Longrightarrow> after c x = []"
  by (induction x) (auto simp: after_def)

lemma cut_at_first: "c \<in> set x \<Longrightarrow> before c x @ c # after c x = x"
proof (induction x)
  case Nil
  then show ?case by simp
next
  case (Cons a x)
  then show ?case by (cases "a = c") (auto simp: before_def after_def)
qed

lemma before_Nil: "before c [] = []"
  by (simp add: before_def)

lemma before_hd: "x \<noteq> [] \<Longrightarrow> hd x \<noteq> c \<Longrightarrow> before c x \<noteq> [] \<and> hd (before c x) = hd x"
  by (cases x) (auto simp: before_def)

lemma before_hd_delim: "x \<noteq> [] \<Longrightarrow> hd x = c \<Longrightarrow> before c x = []"
  by (cases x) (auto simp: before_def)

lemma str_find_None_iff: "str_find c x = None \<longleftrightarrow> c \<notin> set x"
  by (induction x) auto

lemma str_find_Some: "str_find c x = Some i \<Longrightarrow> take i x = before c x \<and> i = length (before c x)"
proof (induction x arbitrary: i)
  case Nil
  then show ?case by simp
next
  case (Cons a x)
  then show ?case by (cases "a = c") (auto simp: before_def)
qed

lemma split_scheme_none: "\<not> scheme_like u \<Longrightarrow> split_scheme s u = (s, u)"
proof (cases "str_find CHR '':'' u")
  case None
  then show ?thesis by (simp add: split_scheme_def)
next
  case (Some i)
  assume n: "\<not> scheme_like u"
  have "CHR '':'' \<in> set u"
    using Some str_find_None_iff [of "CHR '':''" u] by auto
  moreover have "take i u = before CHR '':'' u" and "i = length (before CHR '':'' u)"
    using str_find_Some [OF Some] by blast+
  ultimately show ?thesis
    using n Some by (auto simp: split_scheme_def scheme_like_def)
qed

lemma clean_remove_unsafe:
  "list_all (\<lambda>c. c \<notin> set unsafe_url_bytes) u \<Longrightarrow> remove_unsafe u = u"
  by (simp add: remove_unsafe_def list_all_iff)

lemma clean_lstrip: "u = [] \<or> hd u \<notin> set cs \<Longrightarrow> lstrip cs u = u"
  by (cases u) (auto simp: lstrip_def)

lemma urlsplit_ref:
  assumes chars: "list_all (\<lambda>c. c \<notin> set unsafe_url_bytes) u"
    and first: "u = [] \<or> hd u \<notin> set c0_control_or_space"
    and noscheme: "\<not> scheme_like u"
    and nonet: "take 2 u \<noteq> ''//''"
  shows "urlsplit u [] = Inr ([], [], ref_hier u, ref_query u, ref_fragment u)"
proof -
  have l: "lstrip c0_control_or_space u = u"
    using first by (rule clean_lstrip)
  have r: "remove_unsafe u = u"
    using chars by (rule clean_remove_unsafe)
  have e: "remove_unsafe (rstrip c0_control_or_space (lstrip c0_control_or_space [])) = []"
    by (simp add: remove_unsafe_def rstrip_def lstrip_def)
  have s: "split_scheme [] u = ([], u)"
    using noscheme by (rule split_scheme_none)
  have f: "(if CHR ''#'' \<in> set u then (before CHR ''#'' u, after CHR ''#'' u) else (u, []))
             = (before CHR ''#'' u, ref_fragment u)"
    by (simp add: ref_fragment_def before_whole after_empty)
  have q: "(if CHR ''?'' \<in> set (before CHR ''#'' u)
            then (before CHR ''?'' (before CHR ''#'' u), after CHR ''?'' (before CHR ''#'' u))
            else (before CHR ''#'' u, []))
             = (ref_hier u, ref_query u)"
    by (simp add: ref_hier_def ref_query_def before_whole after_empty)
  show ?thesis
    unfolding urlsplit_def
    using nonet by (simp add: l r e s f q Let_def)
qed

lemma split_single: "d \<notin> set x \<Longrightarrow> str_split d x = [x]"
  by (induction x) (auto simp: Let_def)

lemma last_split_suffix:
  "\<exists>dir. x = dir @ last (str_split d x)"
proof (induction x)
  case Nil
  then show ?case by simp
next
  case (Cons c x)
  obtain t ts where r: "str_split d x = t # ts"
    using str_split_nonempty [of d x] by (cases "str_split d x") auto
  from Cons obtain dir where dir: "x = dir @ last (str_split d x)" by blast
  show ?case
  proof (cases ts)
    case Nil
    have "t = x"
      using join_split [of d x] r Nil by simp
    with r Nil show ?thesis
      by (cases "c = d") (auto simp: Let_def)
  next
    case (Cons t' ts')
    have "last (str_split d (c # x)) = last (str_split d x)"
      using r Cons by (simp add: Let_def)
    with dir have "c # x = (c # dir) @ last (str_split d (c # x))" by simp
    then show ?thesis by blast
  qed
qed

lemma last_split_take:
  "take (length x - length (last (str_split d x))) x @ last (str_split d x) = x"
proof -
  obtain dir where dir: "x = dir @ last (str_split d x)"
    using last_split_suffix by blast
  have "take (length x - length (last (str_split d x))) x = dir"
    by (subst (3) dir, subst (1) dir) simp
  with dir show ?thesis by simp
qed

lemma set_last_split: "set (last (str_split d x)) \<subseteq> set x"
  using last_split_suffix [of x d] by (metis Un_upper2 set_append)

lemma ref_hier_parts:
  "ref_path u
     @ (if CHR '';'' \<in> set (last (str_split CHR ''/'' (ref_hier u))) then CHR '';'' # ref_params u
        else [])
   = ref_hier u"
proof -
  let ?l = "last (str_split CHR ''/'' (ref_hier u))"
  have a: "before CHR '';'' ?l @ (if CHR '';'' \<in> set ?l then CHR '';'' # after CHR '';'' ?l else []) = ?l"
    by (simp add: cut_at_first before_whole)
  have "ref_path u @ (if CHR '';'' \<in> set ?l then CHR '';'' # ref_params u else [])
        = take (length (ref_hier u) - length ?l) (ref_hier u)
          @ (before CHR '';'' ?l @ (if CHR '';'' \<in> set ?l then CHR '';'' # after CHR '';'' ?l else []))"
    by (simp add: ref_path_def ref_params_def)
  then show ?thesis by (simp only: a last_split_take)
qed

lemma ref_query_parts:
  "ref_hier u @ (if CHR ''?'' \<in> set (before CHR ''#'' u) then CHR ''?'' # ref_query u else [])
   = before CHR ''#'' u"
  by (simp add: ref_hier_def ref_query_def cut_at_first before_whole)

lemma ref_fragment_parts:
  "before CHR ''#'' u @ (if CHR ''#'' \<in> set u then CHR ''#'' # ref_fragment u else []) = u"
  by (simp add: ref_fragment_def cut_at_first before_whole)

lemma splitparams_ref:
  "(if [] \<in> set uses_params \<and> CHR '';'' \<in> set (ref_hier u) then splitparams (ref_hier u)
    else (ref_hier u, []))
   = (ref_path u, ref_params u)"
proof -
  let ?p = "ref_hier u"
  let ?l = "last (str_split CHR ''/'' ?p)"
  have whole: "ref_path u = ?p \<and> ref_params u = []" if "CHR '';'' \<notin> set ?l"
    using that ref_hier_parts [of u] by (simp add: ref_params_def after_empty)
  show ?thesis
  proof (cases "CHR '';'' \<in> set ?p")
    case False
    then have "CHR '';'' \<notin> set ?l" using set_last_split by blast
    with False whole show ?thesis by simp
  next
    case True
    have up: "[] \<in> set uses_params" by (simp add: uses_params_def)
    show ?thesis
    proof (cases "CHR ''/'' \<in> set ?p")
      case slash: True
      show ?thesis
      proof (cases "CHR '';'' \<in> set ?l")
        case True
        with slash \<open>CHR '';'' \<in> set ?p\<close> up show ?thesis
          by (simp add: splitparams_def Let_def ref_path_def ref_params_def)
      next
        case False
        with slash \<open>CHR '';'' \<in> set ?p\<close> up whole show ?thesis
          by (simp add: splitparams_def Let_def)
      qed
    next
      case False
      then have "str_split CHR ''/'' ?p = [?p]" by (rule split_single)
      with False True up show ?thesis
        by (simp add: splitparams_def ref_path_def ref_params_def)
    qed
  qed
qed

lemma urlparse_ref:
  assumes "list_all (\<lambda>c. c \<notin> set unsafe_url_bytes) u"
    and "u = [] \<or> hd u \<notin> set c0_control_or_space"
    and "\<not> scheme_like u"
    and "take 2 u \<noteq> ''//''"
  shows "urlparse u [] = Inr ([], [], ref_path u, ref_params u, ref_query u, ref_fragment u)"
  using splitparams_ref [of u]
  by (simp add: urlparse_def urlsplit_ref [OF assms])

subsection \<open>Names that resolution leaves unchanged\<close>

lemma has_double_slash_take2: "take 2 s = ''//'' \<Longrightarrow> has_double_slash s"
  by (cases s; cases "tl s") auto

lemma has_double_slash_prefix: "has_double_slash x \<Longrightarrow> has_double_slash (x @ y)"
  by (induction x rule: has_double_slash.induct) auto

lemma has_double_slash_suffix: "has_double_slash y \<Longrightarrow> has_double_slash (x @ y)"
  by (induction x) (auto simp: has_double_slash_Cons)

lemma has_double_slash_boundary:
  "x \<noteq> [] \<Longrightarrow> last x = CHR ''/'' \<Longrightarrow> y \<noteq> [] \<Longrightarrow> hd y = CHR ''/'' \<Longrightarrow> has_double_slash (x @ y)"
  by (induction x) (auto simp: has_double_slash_Cons hd_append)

lemma ref_path_prefix: "\<exists>t. u = ref_path u @ t"
  using ref_hier_parts [of u] ref_query_parts [of u] ref_fragment_parts [of u]
  by (metis append_assoc)

lemma ref_hier_prefix: "\<exists>t. u = ref_hier u @ t"
  using ref_query_parts [of u] ref_fragment_parts [of u]
  by (metis append_assoc)

lemma urlunparse_ref:
  assumes kept: "tails_kept u" and nds: "\<not> has_double_slash (x @ u)"
  shows "urlunparse ([], [], x @ ref_path u, ref_params u, ref_query u, f)
         = x @ before CHR ''#'' u @ (if f = [] then [] else CHR ''#'' # f)"
proof -
  let ?l = "last (str_split CHR ''/'' (ref_hier u))"
  have p: "(if ref_params u \<noteq> [] then (x @ ref_path u) @ '';'' @ ref_params u else x @ ref_path u)
           = x @ ref_hier u"
  proof (cases "CHR '';'' \<in> set ?l")
    case True
    with kept have "ref_params u \<noteq> []" by (simp add: tails_kept_def)
    with True ref_hier_parts [of u] show ?thesis by simp
  next
    case False
    then have "ref_params u = []" by (simp add: ref_params_def after_empty)
    with False ref_hier_parts [of u] show ?thesis by simp
  qed
  have q: "(if ref_query u \<noteq> [] then (x @ ref_hier u) @ ''?'' @ ref_query u else x @ ref_hier u)
           = x @ before CHR ''#'' u"
  proof (cases "CHR ''?'' \<in> set (before CHR ''#'' u)")
    case True
    with kept have "ref_query u \<noteq> []" by (simp add: tails_kept_def)
    with True ref_query_parts [of u] show ?thesis by simp
  next
    case False
    then have "ref_query u = []" by (simp add: ref_query_def after_empty)
    with False ref_query_parts [of u] show ?thesis by simp
  qed
  obtain t where "u = ref_hier u @ t" using ref_hier_prefix by blast
  then have "x @ u = (x @ ref_hier u) @ t" by simp
  with nds have "\<not> has_double_slash (x @ ref_hier u)"
    using has_double_slash_prefix by metis
  then have nonet: "take 2 (x @ ref_hier u) \<noteq> ''//''"
    using has_double_slash_take2 by blast
  have "urlunsplit ([], [], x @ ref_hier u, ref_query u, f)
        = x @ before CHR ''#'' u @ (if f = [] then [] else CHR ''#'' # f)"
    using nonet q by (simp add: urlunsplit_def)
  then show ?thesis
    by (simp add: urlunparse_def p)
qed

lemma urlunparse_ref_whole:
  assumes kept: "tails_kept u" and nds: "\<not> has_double_slash (x @ u)"
  shows "urlunparse ([], [], x @ ref_path u, ref_params u, ref_query u, ref_fragment u) = x @ u"
proof -
  have "before CHR ''#'' u @ (if ref_fragment u = [] then [] else CHR ''#'' # ref_fragment u) = u"
  proof (cases "CHR ''#'' \<in> set u")
    case True
    with kept have "ref_fragment u \<noteq> []" by (simp add: tails_kept_def)
    with True ref_fragment_parts [of u] show ?thesis by simp
  next
    case False
    then have "ref_fragment u = []" by (simp add: ref_fragment_def after_empty)
    with False ref_fragment_parts [of u] show ?thesis by simp
  qed
  with urlunparse_ref [OF assms, of "ref_fragment u"] show ?thesis by simp
qed

lemma split_hd_nonempty: "x \<noteq> [] \<Longrightarrow> hd x \<noteq> d \<Longrightarrow> hd (str_split d x) \<noteq> []"
  by (cases x) (auto simp: Let_def)

lemma split_inner_nonempty:
  "\<not> has_double_slash x \<Longrightarrow> \<forall>s \<in> set (butlast (tl (str_split CHR ''/'' x))). s \<noteq> []"
proof (induction x)
  case Nil
  then show ?case by simp
next
  case (Cons c x)
  obtain t ts where r: "str_split CHR ''/'' x = t # ts"
    using str_split_nonempty [of "CHR ''/''" x] by (cases "str_split CHR ''/'' x") auto
  have nx: "\<not> has_double_slash x"
    using Cons.prems by (simp add: has_double_slash_Cons)
  with Cons.IH r have ih: "\<forall>s \<in> set (butlast ts). s \<noteq> []" by simp
  show ?case
  proof (cases "c = CHR ''/''")
    case True
    have "t \<noteq> []" if "ts \<noteq> []"
    proof -
      have "x \<noteq> []" using that r by (cases x) auto
      moreover have "hd x \<noteq> CHR ''/''"
        using Cons.prems True calculation by (simp add: has_double_slash_Cons)
      ultimately show ?thesis
        using split_hd_nonempty [of x "CHR ''/''"] r by simp
    qed
    with ih r True show ?thesis by (auto simp: Let_def)
  next
    case False
    with ih r show ?thesis by (simp add: Let_def)
  qed
qed

lemma split_butlast_nonempty:
  assumes "\<not> has_double_slash x" and "x = [] \<or> hd x \<noteq> CHR ''/''"
  shows "\<forall>s \<in> set (butlast (str_split CHR ''/'' x)). s \<noteq> []"
proof (cases "x = []")
  case True
  then show ?thesis by simp
next
  case False
  obtain t ts where r: "str_split CHR ''/'' x = t # ts"
    using str_split_nonempty [of "CHR ''/''" x] by (cases "str_split CHR ''/'' x") auto
  have "t \<noteq> []"
    using split_hd_nonempty [of x "CHR ''/''"] False assms(2) r by simp
  moreover have "\<forall>s \<in> set (butlast ts). s \<noteq> []"
    using split_inner_nonempty [OF assms(1)] r by simp
  ultimately show ?thesis using r by auto
qed

lemma last_split_delim: "x \<noteq> [] \<Longrightarrow> last x = d \<Longrightarrow> last (str_split d x) = []"
proof -
  assume "x \<noteq> []" and "last x = d"
  then have "x = butlast x @ d # []" by (metis append_butlast_last_id)
  then have "str_split d x = str_split d (butlast x) @ str_split d []"
    by (metis split_append)
  then show ?thesis by simp
qed

lemma base_segments:
  assumes "b \<noteq> []" and "hd b = CHR ''/''" and "last b = CHR ''/''" and "\<not> has_double_slash b"
  shows "\<exists>mid. str_split CHR ''/'' b = [] # mid @ [[]] \<and> (\<forall>s \<in> set mid. s \<noteq> [])"
proof -
  let ?segs = "str_split CHR ''/'' b"
  obtain b' where b': "b = CHR ''/'' # b'"
    using assms(1,2) by (cases b) auto
  obtain t ts where r: "str_split CHR ''/'' b' = t # ts"
    using str_split_nonempty [of "CHR ''/''" b'] by (cases "str_split CHR ''/'' b'") auto
  have segs: "?segs = [] # t # ts"
    using b' r by (simp add: Let_def)
  have "last ?segs = []"
    using assms(1,3) by (rule last_split_delim)
  with segs have "last (t # ts) = []" by simp
  then have "t # ts = butlast (t # ts) @ [[]]"
    by (metis append_butlast_last_id list.distinct(1))
  with segs have shape: "?segs = [] # butlast (t # ts) @ [[]]" by simp
  have "\<forall>s \<in> set (butlast (tl ?segs)). s \<noteq> []"
    using assms(4) by (rule split_inner_nonempty)
  with segs have "\<forall>s \<in> set (butlast (t # ts)). s \<noteq> []" by simp
  with shape show ?thesis by blast
qed

lemma slash_not_c0: "CHR ''/'' \<notin> set c0_control_or_space"
  by code_simp

lemma slash_not_alpha: "\<not> is_ascii_alpha CHR ''/''"
  by code_simp

lemma base_no_scheme: "hd b = CHR ''/'' \<Longrightarrow> \<not> scheme_like b"
  by (simp add: scheme_like_def slash_not_alpha)

lemma base_parse:
  assumes "b \<noteq> []" and "hd b = CHR ''/''" and "last b = CHR ''/''"
    and "\<not> has_double_slash b"
    and "list_all (\<lambda>c. c \<notin> set unsafe_url_bytes) b"
    and "CHR ''#'' \<notin> set b" and "CHR ''?'' \<notin> set b"
  shows "urlparse b [] = Inr ([], [], b, [], [], [])"
proof -
  have nonet: "take 2 b \<noteq> ''//''"
    using assms(4) has_double_slash_take2 by blast
  have first: "b = [] \<or> hd b \<notin> set c0_control_or_space"
    using assms(2) slash_not_c0 by simp
  have h: "ref_hier b = b"
    using assms(6,7) by (simp add: ref_hier_def before_whole)
  have l: "last (str_split CHR ''/'' b) = []"
    using assms(1,3) by (rule last_split_delim)
  have "ref_fragment b = []"
    using assms(6) by (simp add: ref_fragment_def after_empty)
  moreover have "ref_query b = []"
    using assms(6,7) by (simp add: ref_query_def before_whole after_empty)
  moreover have "ref_params b = []"
    by (simp add: ref_params_def h l after_def)
  moreover have "ref_path b = b"
    by (simp add: ref_path_def h l before_def)
  ultimately show ?thesis
    using urlparse_ref [OF assms(5) first base_no_scheme [OF assms(2)] nonet] by simp
qed

lemma urljoin_path_branch:
  assumes b: "b \<noteq> []" "hd b = CHR ''/''" "last b = CHR ''/''"
    and nds: "\<not> has_double_slash (b @ u)"
    and une: "u \<noteq> []"
    and chars: "list_all (\<lambda>c. c \<notin> set unsafe_url_bytes) (b @ u)"
    and first: "hd u \<notin> set c0_control_or_space"
    and noscheme: "\<not> scheme_like u"
    and kept: "tails_kept u"
    and bhash: "CHR ''#'' \<notin> set b" and bquest: "CHR ''?'' \<notin> set b"
    and start: "hd u \<noteq> CHR ''?''" "hd u \<noteq> CHR ''#''"
    and dots: "dot_free b" "dot_free (ref_path u)"
  shows "urljoin b u = Inr (b @ u)"
proof -
  let ?path = "ref_path u"
  let ?ps = "str_split CHR ''/'' ?path"
  have nds_b: "\<not> has_double_slash b"
    using nds has_double_slash_prefix by blast
  have nds_u: "\<not> has_double_slash u"
    using nds has_double_slash_suffix by blast
  have u_hd: "hd u \<noteq> CHR ''/''"
    using nds b une has_double_slash_boundary by blast
  have chars_b: "list_all (\<lambda>c. c \<notin> set unsafe_url_bytes) b"
    and chars_u: "list_all (\<lambda>c. c \<notin> set unsafe_url_bytes) u"
    using chars by simp_all
  have pb: "urlparse b [] = Inr ([], [], b, [], [], [])"
    using b nds_b chars_b bhash bquest by (rule base_parse)
  have u_nonet: "take 2 u \<noteq> ''//''"
    using u_hd une by (cases u) auto
  have pu: "urlparse u [] = Inr ([], [], ?path, ref_params u, ref_query u, ref_fragment u)"
    using chars_u first noscheme u_nonet by (intro urlparse_ref) simp_all
  have hier_ne: "ref_hier u \<noteq> []"
  proof -
    have "before CHR ''#'' u \<noteq> [] \<and> hd (before CHR ''#'' u) = hd u"
      using une start(2) by (rule before_hd)
    then show ?thesis
      using start(1) before_hd [of "before CHR ''#'' u" "CHR ''?''"] by (simp add: ref_hier_def)
  qed
  have some: "\<not> (?path = [] \<and> ref_params u = [])"
  proof (cases "CHR '';'' \<in> set (last (str_split CHR ''/'' (ref_hier u)))")
    case True
    with kept show ?thesis by (simp add: tails_kept_def)
  next
    case False
    with ref_hier_parts [of u] hier_ne show ?thesis by simp
  qed
  obtain t where t: "u = ?path @ t" using ref_path_prefix by blast
  have path_hd: "?path = [] \<or> hd ?path \<noteq> CHR ''/''"
    using t u_hd by (metis hd_append2)
  have take1: "take 1 ?path \<noteq> ''/''"
    using path_hd by (cases ?path) auto
  have "\<not> has_double_slash ?path"
    using nds_u t has_double_slash_prefix by metis
  then have ps_inner: "\<forall>s \<in> set (butlast ?ps). s \<noteq> []"
    using path_hd by (rule split_butlast_nonempty)
  have ps_ne: "?ps \<noteq> []" by (rule str_split_nonempty)
  obtain mid where bsplit: "str_split CHR ''/'' b = [] # mid @ [[]]"
    and mid: "\<forall>s \<in> set mid. s \<noteq> []"
    using base_segments [OF b nds_b] by blast
  have segs: "filter_inner ([] # mid @ [] # ?ps) = [] # mid @ ?ps"
  proof -
    have "butlast (mid @ [[]] @ ?ps) = mid @ [[]] @ butlast ?ps"
      using ps_ne by (simp add: butlast_append)
    moreover have "filter (\<lambda>seg. seg \<noteq> []) (mid @ [[]] @ butlast ?ps) = mid @ butlast ?ps"
      using mid ps_inner by (auto simp: filter_id_conv)
    moreover have "last ([] # mid @ [] # ?ps) = last ?ps"
      using ps_ne by simp
    ultimately show ?thesis
      using ps_ne by (simp add: filter_inner_def)
  qed
  have nodots: "\<forall>s \<in> set ([] # mid @ ?ps). s \<noteq> ''.'' \<and> s \<noteq> ''..''"
    using dots bsplit by (auto simp: dot_free_def)
  have res: "resolve_segments [] ([] # mid @ ?ps) = [] # mid @ ?ps"
    using resolve_segments_plain [OF nodots, of "[]"] by simp
  have lastseg: "last ([] # mid @ ?ps) \<notin> {''.'', ''..''}"
    using nodots ps_ne by (metis insertE last_in_set list.distinct(1) singletonD)
  have b_join: "b = str_join ''/'' ([] # mid @ [[]])"
    using join_split [of "CHR ''/''" b] bsplit by simp
  have J: "str_join ''/'' ([] # mid @ ?ps) = b @ ?path"
  proof -
    have "str_join ''/'' (([] # mid) @ ?ps) = str_join ''/'' ([] # mid) @ ''/'' @ str_join ''/'' ?ps"
      using ps_ne by (intro join_append) simp_all
    moreover have "str_join ''/'' (([] # mid) @ [[]])
                   = str_join ''/'' ([] # mid) @ ''/'' @ str_join ''/'' [[]]"
      by (intro join_append) simp_all
    ultimately show ?thesis
      using b_join join_split [of "CHR ''/''" ?path] by simp
  qed
  have J_ne: "b @ ?path \<noteq> []" using b(1) by simp
  have unparse: "urlunparse ([], [], b @ ?path, ref_params u, ref_query u, ref_fragment u) = b @ u"
    using kept nds by (rule urlunparse_ref_whole)
  have rel: "[] \<in> set uses_relative" and net: "[] \<in> set uses_netloc"
    by (simp_all add: uses_relative_def uses_netloc_def)
  show ?thesis
    unfolding urljoin_def
    using b(1) une rel net take1 lastseg J_ne
    by (simp add: pb pu some bsplit segs res J unparse Let_def del: resolve_segments.simps)
qed

lemma urljoin_query_branch:
  assumes b: "b \<noteq> []" "hd b = CHR ''/''" "last b = CHR ''/''"
    and nds: "\<not> has_double_slash (b @ u)"
    and une: "u \<noteq> []"
    and chars: "list_all (\<lambda>c. c \<notin> set unsafe_url_bytes) (b @ u)"
    and first: "hd u \<notin> set c0_control_or_space"
    and noscheme: "\<not> scheme_like u"
    and kept: "tails_kept u"
    and bhash: "CHR ''#'' \<notin> set b"
    and start: "hd u = CHR ''?'' \<or> hd u = CHR ''#''"
    and bq: "CHR ''?'' \<in> set b \<longrightarrow> hd u = CHR ''#'' \<and> tails_kept b"
  shows "urljoin b u = Inr (b @ u)"
proof -
  have nds_b: "\<not> has_double_slash b"
    using nds has_double_slash_prefix by blast
  have chars_b: "list_all (\<lambda>c. c \<notin> set unsafe_url_bytes) b"
    and chars_u: "list_all (\<lambda>c. c \<notin> set unsafe_url_bytes) u"
    using chars by simp_all
  have u_nonet: "take 2 u \<noteq> ''//''"
    using start une by (cases u) auto
  have hier: "ref_hier u = []"
  proof (cases "hd u = CHR ''#''")
    case True
    with une have "before CHR ''#'' u = []" by (intro before_hd_delim)
    then show ?thesis by (simp add: ref_hier_def before_Nil)
  next
    case False
    with start have q: "hd u = CHR ''?''" by simp
    from une False have "before CHR ''#'' u \<noteq> [] \<and> hd (before CHR ''#'' u) = hd u"
      by (rule before_hd)
    with q show ?thesis
      by (simp add: ref_hier_def before_hd_delim)
  qed
  have path: "ref_path u = []" and params: "ref_params u = []"
    by (simp_all add: ref_path_def ref_params_def hier before_def after_def)
  have pu: "urlparse u [] = Inr ([], [], [], [], ref_query u, ref_fragment u)"
    using urlparse_ref [of u] chars_u first noscheme u_nonet path params by simp
  have b_nonet: "take 2 b \<noteq> ''//''"
    using nds_b has_double_slash_take2 by blast
  have b_first: "b = [] \<or> hd b \<notin> set c0_control_or_space"
    using b(2) slash_not_c0 by simp
  have b_frag: "ref_fragment b = []"
    using bhash by (simp add: ref_fragment_def after_empty)
  have pb: "urlparse b [] = Inr ([], [], ref_path b, ref_params b, ref_query b, [])"
    using urlparse_ref [OF chars_b b_first base_no_scheme [OF b(2)] b_nonet] b_frag by simp
  have rel: "[] \<in> set uses_relative" and net: "[] \<in> set uses_netloc"
    by (simp_all add: uses_relative_def uses_netloc_def)
  have joined: "urljoin b u
      = Inr (urlunparse ([], [], ref_path b, ref_params b,
                         (if ref_query u = [] then ref_query b else ref_query u), ref_fragment u))"
    unfolding urljoin_def
    using b(1) une rel net by (simp add: pb pu Let_def)
  show ?thesis
  proof (cases "CHR ''?'' \<in> set b")
    case False
    have "urlparse b [] = Inr ([], [], b, [], [], [])"
      using b nds_b chars_b bhash False by (rule base_parse)
    with pb have pb': "ref_path b = b" "ref_params b = []" "ref_query b = []"
      by simp_all
    have q: "(if ref_query u = [] then [] else ref_query u) = ref_query u"
      by simp
    have "urlunparse ([], [], b @ ref_path u, ref_params u, ref_query u, ref_fragment u) = b @ u"
      using kept nds by (rule urlunparse_ref_whole)
    then have "urlunparse ([], [], b, [], ref_query u, ref_fragment u) = b @ u"
      by (simp add: path params)
    moreover from joined
    have "urljoin b u = Inr (urlunparse ([], [], b, [], ref_query u, ref_fragment u))"
      by (simp only: pb' q)
    ultimately show ?thesis
      by (simp only:)
  next
    case True
    with bq have h: "hd u = CHR ''#''" and kept_b: "tails_kept b" by simp_all
    from une h have bu: "before CHR ''#'' u = []" by (intro before_hd_delim)
    then have qu: "ref_query u = []" by (simp add: ref_query_def after_def)
    have "CHR ''#'' \<in> set u" using une h by (cases u) auto
    with kept have f: "ref_fragment u \<noteq> []" by (simp add: tails_kept_def)
    have u_eq: "u = CHR ''#'' # ref_fragment u"
      using ref_fragment_parts [of u] bu \<open>CHR ''#'' \<in> set u\<close> by simp
    have "urlunparse ([], [], [] @ ref_path b, ref_params b, ref_query b, ref_fragment u)
          = [] @ before CHR ''#'' b @ (if ref_fragment u = [] then [] else CHR ''#'' # ref_fragment u)"
      using kept_b nds_b by (intro urlunparse_ref) simp_all
    then have "urlunparse ([], [], ref_path b, ref_params b, ref_query b, ref_fragment u)
          = b @ CHR ''#'' # ref_fragment u"
      using f bhash by (simp add: before_whole)
    with joined qu u_eq show ?thesis by simp
  qed
qed

lemma urljoin_unchanged:
  assumes j: "joins_unchanged b u"
    and b: "b \<noteq> []" "hd b = CHR ''/''" "last b = CHR ''/''"
  shows "urljoin b u = Inr (b @ u)"
proof (cases "u = []")
  case True
  with b(1) show ?thesis by (simp add: urljoin_def)
next
  case False
  from j have nds: "\<not> has_double_slash (b @ u)"
    by (simp add: joins_unchanged_def)
  from j False
  have all: "list_all (\<lambda>c. c \<notin> set unsafe_url_bytes) (b @ u)
      \<and> hd u \<notin> set c0_control_or_space
      \<and> \<not> scheme_like u
      \<and> tails_kept u
      \<and> CHR ''#'' \<notin> set b
      \<and> (if hd u = CHR ''?'' \<or> hd u = CHR ''#''
         then CHR ''?'' \<in> set b \<longrightarrow> hd u = CHR ''#'' \<and> tails_kept b
         else CHR ''?'' \<notin> set b \<and> dot_free b \<and> dot_free (ref_path u))"
    unfolding joins_unchanged_def by blast
  then have chars: "list_all (\<lambda>c. c \<notin> set unsafe_url_bytes) (b @ u)"
    and first: "hd u \<notin> set c0_control_or_space"
    and noscheme: "\<not> scheme_like u"
    and kept: "tails_kept u"
    and bhash: "CHR ''#'' \<notin> set b"
    and rest: "if hd u = CHR ''?'' \<or> hd u = CHR ''#''
               then CHR ''?'' \<in> set b \<longrightarrow> hd u = CHR ''#'' \<and> tails_kept b
               else CHR ''?'' \<notin> set b \<and> dot_free b \<and> dot_free (ref_path u)"
    by blast+
  show ?thesis
  proof (cases "hd u = CHR ''?'' \<or> hd u = CHR ''#''")
    case True
    with rest have bq: "CHR ''?'' \<in> set b \<longrightarrow> hd u = CHR ''#'' \<and> tails_kept b"
      by (simp only: if_True)
    show ?thesis
      by (rule urljoin_query_branch [OF b nds False chars first noscheme kept bhash True bq])
  next
    case no: False
    from rest have r: "CHR ''?'' \<notin> set b \<and> dot_free b \<and> dot_free (ref_path u)"
      by (simp only: no if_False simp_thms)
    from no have start: "hd u \<noteq> CHR ''?''" "hd u \<noteq> CHR ''#''"
      by blast+
    from r have bquest: "CHR ''?'' \<notin> set b" and dots: "dot_free b" "dot_free (ref_path u)"
      by blast+
    show ?thesis
      by (rule urljoin_path_branch
            [OF b nds False chars first noscheme kept bhash bquest start dots])
  qed
qed

lemma normalize_base_ends:
  "normalize_base R \<noteq> [] \<and> hd (normalize_base R) = CHR ''/'' \<and> last (normalize_base R) = CHR ''/''"
  by (simp add: normalize_base_def Let_def)

text \<open>
  Colons, question marks, hashes and semicolons that are no scheme and introduce no empty
  part are within \<open>joins_unchanged\<close>, in the name and (colon and semicolon) in the root.
\<close>

lemma delimiters_within_joins_unchanged:
  "joins_unchanged (normalize_base '''') (lstrip ''/'' ''a/b:c'')
   \<and> joins_unchanged (normalize_base '''') (lstrip ''/'' ''a?b'')
   \<and> joins_unchanged (normalize_base '''') (lstrip ''/'' ''report#1.pdf'')
   \<and> joins_unchanged (normalize_base '''') (lstrip ''/'' ''a;b'')
   \<and> joins_unchanged (normalize_base ''a:b'') (lstrip ''/'' ''c'')
   \<and> joins_unchanged (normalize_base ''a;b'') (lstrip ''/'' ''c'')
   \<and> joins_unchanged (normalize_base '''') (lstrip ''/'' ''?q'')
   \<and> joins_unchanged (normalize_base '''') (lstrip ''/'' '';p'')"
  by code_simp

text \<open>
  Each condition of \<open>joins_unchanged\<close> leaves out names that \<open>safe_join\<close> changes or
  rejects: a tab, a leading space, a scheme, an empty fragment, query or parameter text, a
  \<open>#\<close> or \<open>?\<close> in the root, a \<open>.\<close> segment in the root or in the name, and a \<open>..\<close>
  segment that only the parameters hide.
\<close>

lemma names_outside_joins_unchanged:
  "safe_join '''' [CHR ''a'', CHR 0x09, CHR ''b''] = Inr ''/ab''
   \<and> safe_join '''' '' a'' = Inr ''/a''
   \<and> safe_join '''' ''a:b'' = Inl (SuspiciousFileOperation ''a:b'' ''/'')
   \<and> safe_join '''' ''a#'' = Inr ''/a''
   \<and> safe_join '''' ''a?'' = Inr ''/a''
   \<and> safe_join '''' ''a;'' = Inr ''/a''
   \<and> safe_join ''a#b'' ''c'' = Inl (SuspiciousFileOperation ''/c'' ''/a#b/'')
   \<and> safe_join ''a?b'' ''c'' = Inl (SuspiciousFileOperation ''/c'' ''/a?b/'')
   \<and> safe_join ''a?b'' ''?q'' = Inl (SuspiciousFileOperation ''/a?q'' ''/a?b/'')
   \<and> safe_join ''a;?b'' ''#f'' = Inl (SuspiciousFileOperation ''/a?b/#f'' ''/a;?b/'')
   \<and> safe_join ''a/./b'' ''c'' = Inl (SuspiciousFileOperation ''/a/b/c'' ''/a/./b/'')
   \<and> safe_join '''' ''./a'' = Inr ''/a''
   \<and> safe_join '''' ''a/..;x'' = Inr ''/;x''"
  by code_simp

section \<open>The path resolver\<close>

text \<open>
  Claim C1, as stated, gives \<open>safe_join\<close> two outcomes for every root and name: a
  string that starts with the normalized root, or the path traversal error. There is a
  third: the URL parser of the standard library rejects a host with an unbalanced
  square bracket, and \<open>safe_join\<close> lets its \<open>ValueError\<close> through. For the empty root
  and the name \<open>http://[x\<close> the outcome is neither of the two.
\<close>

theorem safe_join_value_error_counterexample:
  "\<not> (case safe_join [] ''http://[x'' of
         Inr joined \<Rightarrow> startswith joined (normalize_base [])
       | Inl e \<Rightarrow> is_suspicious e)"
  by code_simp

text \<open>
  Claim C1, amended. For every root \<open>R\<close> and name \<open>N\<close>:
  \<^item> if URL resolution raises, the error is \<open>ValueError\<close> and \<open>safe_join\<close> raises it;
    otherwise \<open>safe_join\<close> returns the resolved, separator-collapsed string when that
    string starts with the normalized root, and raises the path traversal error, with
    that string and the normalized root, when it does not;
  \<^item> so \<open>safe_join\<close> returns a string that starts with the normalized root, or raises
    the path traversal error, or raises \<open>ValueError\<close>;
  \<^item> the normalized root is the single separator when \<open>R\<close> holds nothing but
    separators, and otherwise \<open>R\<close> without its leading and trailing separators between
    one leading and one trailing separator;
  \<^item> the root \<open>/media/\<close> with the name \<open>../../etc/passwd\<close> raises the path traversal
    error.
\<close>

theorem safe_join_contained_or_rejected:
  "(case resolved_url R N of
      Inl e \<Rightarrow> e = ValueError \<and> safe_join R N = Inl ValueError
    | Inr resolved \<Rightarrow>
        safe_join R N =
          (if startswith resolved (normalize_base R) then Inr resolved
           else Inl (SuspiciousFileOperation resolved (normalize_base R))))
   \<and> (case safe_join R N of
        Inr joined \<Rightarrow> startswith joined (normalize_base R)
      | Inl e \<Rightarrow> is_suspicious e \<or> e = ValueError)
   \<and> ((rstrip ''/'' (lstrip ''/'' R) = [] \<and> normalize_base R = ''/'')
      \<or> (rstrip ''/'' (lstrip ''/'' R) \<noteq> []
          \<and> hd (rstrip ''/'' (lstrip ''/'' R)) \<noteq> CHR ''/''
          \<and> last (rstrip ''/'' (lstrip ''/'' R)) \<noteq> CHR ''/''
          \<and> normalize_base R = ''/'' @ rstrip ''/'' (lstrip ''/'' R) @ ''/''))
   \<and> safe_join ''/media/'' ''../../etc/passwd''
       = Inl (SuspiciousFileOperation ''etc/passwd'' ''/media/'')"
proof -
  have one: "case resolved_url R N of
      Inl e \<Rightarrow> e = ValueError \<and> safe_join R N = Inl ValueError
    | Inr resolved \<Rightarrow>
        safe_join R N =
          (if startswith resolved (normalize_base R) then Inr resolved
           else Inl (SuspiciousFileOperation resolved (normalize_base R)))"
    by (auto simp: safe_join_def split: sum.splits dest: resolved_url_error)
  have two: "case safe_join R N of
        Inr joined \<Rightarrow> startswith joined (normalize_base R)
      | Inl e \<Rightarrow> is_suspicious e \<or> e = ValueError"
    by (auto simp: safe_join_def split: sum.splits if_splits dest: resolved_url_error)
  have five: "safe_join ''/media/'' ''../../etc/passwd''
       = Inl (SuspiciousFileOperation ''etc/passwd'' ''/media/'')"
    by code_simp
  from one two normalize_base_shape [of R] five show ?thesis
    by blast
qed

theorem safe_join_contained_or_rejected_witness:
  "resolved_url ''/media/'' ''avatars/1.png'' = Inr ''/media/avatars/1.png''
   \<and> normalize_base ''/media/'' = ''/media/''
   \<and> startswith ''/media/avatars/1.png'' ''/media/''
   \<and> safe_join ''/media/'' ''avatars/1.png'' = Inr ''/media/avatars/1.png''
   \<and> resolved_url ''/media/'' ''../../etc/passwd'' = Inr ''etc/passwd''
   \<and> safe_join ''/media/'' ''../../etc/passwd''
       = Inl (SuspiciousFileOperation ''etc/passwd'' ''/media/'')"
proof -
  have a: "resolved_url ''/media/'' ''avatars/1.png'' = Inr ''/media/avatars/1.png''"
    by code_simp
  have b: "normalize_base ''/media/'' = ''/media/''" by code_simp
  have c: "startswith ''/media/avatars/1.png'' ''/media/''" by code_simp
  have d: "resolved_url ''/media/'' ''../../etc/passwd'' = Inr ''etc/passwd''" by code_simp
  note contract = safe_join_contained_or_rejected [of "''/media/''" "''avatars/1.png''"]
  from contract a b c
  have f: "safe_join ''/media/'' ''avatars/1.png'' = Inr ''/media/avatars/1.png''"
    by simp
  from contract
  have h: "safe_join ''/media/'' ''../../etc/passwd''
       = Inl (SuspiciousFileOperation ''etc/passwd'' ''/media/'')"
    by blast
  from a b c d f h show ?thesis by blast
qed

text \<open>
  Claim C4, as stated: for roots and names without a \<open>..\<close> segment, \<open>safe_join\<close>
  succeeds with a string that starts with the normalized root and ends with the name
  without its leading separators. For the empty root and the name \<open>a//b\<close>, neither of
  which has a \<open>..\<close> segment, the result is \<open>/a/b\<close>, which does not end with \<open>a//b\<close>.
\<close>

theorem safe_join_collapses_name_counterexample:
  "''..'' \<notin> set (str_split CHR ''/'' '''')
   \<and> ''..'' \<notin> set (str_split CHR ''/'' ''a//b'')
   \<and> safe_join '''' ''a//b'' = Inr ''/a/b''
   \<and> \<not> endswith ''/a/b'' (lstrip ''/'' ''a//b'')"
  by code_simp

text \<open>
  Claim C4, amended. Let \<open>b\<close> be the normalized root and \<open>u\<close> the name without its
  leading separators, and let them satisfy \<open>joins_unchanged\<close>: \<open>b\<close> followed by \<open>u\<close>
  has no two separators in a row and, unless \<open>u\<close> is empty,
  \<^item> neither holds a tab, carriage return or line feed, and \<open>u\<close> does not begin with a
    control character or a space;
  \<^item> \<open>u\<close> does not begin with a scheme (an ASCII letter, then letters, digits, \<open>+\<close>,
    \<open>-\<close> or \<open>.\<close>, up to its first colon);
  \<^item> no \<open>#\<close>, \<open>?\<close> or \<open>;\<close> of the last path segment of \<open>u\<close> is followed by an empty
    fragment, query or parameter text;
  \<^item> \<open>b\<close> holds no \<open>#\<close>;
  \<^item> when \<open>u\<close> begins with \<open>?\<close> or \<open>#\<close>: \<open>b\<close> holds no \<open>?\<close>, or else \<open>u\<close> begins with
    \<open>#\<close> and no delimiter of \<open>b\<close> is followed by an empty part;
  \<^item> when \<open>u\<close> begins otherwise: \<open>b\<close> holds no \<open>?\<close>, and no segment of \<open>b\<close> or of the
    path of \<open>u\<close> (its text before the first \<open>?\<close> or \<open>#\<close>, the last segment cut at its
    first \<open>;\<close>) is \<open>.\<close> or \<open>..\<close>.

  Then \<open>safe_join\<close> succeeds, and its result is the normalized root followed by the name
  without its leading separators: it starts with the one and ends with the other. Colons,
  question marks, hashes and semicolons are allowed wherever the conditions do not exclude
  them, as in \<open>a/b:c\<close>, \<open>a?b\<close>, \<open>report#1.pdf\<close>, \<open>a;b\<close> and the root \<open>a:b\<close>.
\<close>

theorem safe_join_appends_name:
  assumes "joins_unchanged (normalize_base R) (lstrip ''/'' N)"
  shows "safe_join R N = Inr (normalize_base R @ lstrip ''/'' N)
       \<and> startswith (normalize_base R @ lstrip ''/'' N) (normalize_base R)
       \<and> endswith (normalize_base R @ lstrip ''/'' N) (lstrip ''/'' N)"
proof -
  have ends: "normalize_base R \<noteq> []" "hd (normalize_base R) = CHR ''/''"
      "last (normalize_base R) = CHR ''/''"
    using normalize_base_ends [of R] by blast+
  have j: "urljoin (normalize_base R) (lstrip ''/'' N) = Inr (normalize_base R @ lstrip ''/'' N)"
    by (rule urljoin_unchanged [OF assms ends])
  have nds: "\<not> has_double_slash (normalize_base R @ lstrip ''/'' N)"
    using assms by (simp add: joins_unchanged_def)
  have r: "resolved_url R N = Inr (normalize_base R @ lstrip ''/'' N)"
    using j collapse_id [OF nds] by (simp add: resolved_url_def)
  have s: "startswith (normalize_base R @ lstrip ''/'' N) (normalize_base R)"
    by (simp add: startswith_def)
  have e: "endswith (normalize_base R @ lstrip ''/'' N) (lstrip ''/'' N)"
    by (simp add: endswith_def)
  from r s e show ?thesis by (simp add: safe_join_def)
qed

theorem safe_join_appends_name_witness:
  "joins_unchanged (normalize_base ''/media/'') (lstrip ''/'' ''avatars/1.png'')
   \<and> safe_join ''/media/'' ''avatars/1.png'' = Inr ''/media/avatars/1.png''
   \<and> joins_unchanged (normalize_base ''a:b'') (lstrip ''/'' ''/docs/b:c;v=1?x=1#top'')
   \<and> safe_join ''a:b'' ''/docs/b:c;v=1?x=1#top'' = Inr ''/a:b/docs/b:c;v=1?x=1#top''
   \<and> joins_unchanged (normalize_base ''a?b'') (lstrip ''/'' ''#top'')
   \<and> safe_join ''a?b'' ''#top'' = Inr ''/a?b/#top''"
proof -
  have a: "joins_unchanged (normalize_base ''/media/'') (lstrip ''/'' ''avatars/1.png'')"
    by code_simp
  have a': "normalize_base ''/media/'' @ lstrip ''/'' ''avatars/1.png'' = ''/media/avatars/1.png''"
    by code_simp
  from safe_join_appends_name [OF a] a'
  have 1: "safe_join ''/media/'' ''avatars/1.png'' = Inr ''/media/avatars/1.png''"
    by simp
  have b: "joins_unchanged (normalize_base ''a:b'') (lstrip ''/'' ''/docs/b:c;v=1?x=1#top'')"
    by code_simp
  have b': "normalize_base ''a:b'' @ lstrip ''/'' ''/docs/b:c;v=1?x=1#top''
            = ''/a:b/docs/b:c;v=1?x=1#top''"
    by code_simp
  from safe_join_appends_name [OF b] b'
  have 2: "safe_join ''a:b'' ''/docs/b:c;v=1?x=1#top'' = Inr ''/a:b/docs/b:c;v=1?x=1#top''"
    by simp
  have c: "joins_unchanged (normalize_base ''a?b'') (lstrip ''/'' ''#top'')"
    by code_simp
  have c': "normalize_base ''a?b'' @ lstrip ''/'' ''#top'' = ''/a?b/#top''"
    by code_simp
  from safe_join_appends_name [OF c] c'
  have 3: "safe_join ''a?b'' ''#top'' = Inr ''/a?b/#top''"
    by simp
  from a 1 b 2 c 3 show ?thesis by blast
qed

section \<open>Facts about the buffered remote file\<close>

subsection \<open>What a caller's operations change\<close>

lemma run_op_blob: "blob (run_op op f) = blob f"
  by (cases op)
     (simp_all add: gcloud_file_write_def gcloud_file_read_def gcloud_file_seek_def
               split: prod.splits)

lemma run_op_closed: "file_closed (tmpfile (run_op op f)) = file_closed (tmpfile f)"
  by (cases op)
     (auto simp: gcloud_file_write_def gcloud_file_read_def gcloud_file_seek_def
                 file_write_def file_read_def file_seek_def Let_def
           split: prod.splits if_splits)

lemma run_op_dirty: "dirty (run_op op f) = (dirty f \<or> is_write op)"
  by (cases op)
     (auto simp: gcloud_file_write_def gcloud_file_read_def gcloud_file_seek_def
           split: prod.splits)

lemma run_op_buf:
  "\<not> is_write op \<Longrightarrow> file_buf (tmpfile (run_op op f)) = file_buf (tmpfile f)"
  by (cases op)
     (auto simp: gcloud_file_read_def gcloud_file_seek_def file_read_def file_seek_def Let_def
           split: prod.splits if_splits)

lemma run_ops_Nil: "run_ops [] f = f"
  by (simp add: run_ops_def)

lemma run_ops_Cons: "run_ops (op # ops) f = run_ops ops (run_op op f)"
  by (simp add: run_ops_def)

lemma run_ops_blob: "blob (run_ops ops f) = blob f"
  by (induction ops arbitrary: f) (simp_all add: run_ops_Nil run_ops_Cons run_op_blob)

lemma run_ops_closed: "file_closed (tmpfile (run_ops ops f)) = file_closed (tmpfile f)"
  by (induction ops arbitrary: f) (simp_all add: run_ops_Nil run_ops_Cons run_op_closed)

lemma run_ops_dirty: "dirty (run_ops ops f) = (dirty f \<or> list_ex is_write ops)"
  by (induction ops arbitrary: f) (auto simp: run_ops_Nil run_ops_Cons run_op_dirty)

lemma run_ops_buf:
  "\<not> list_ex is_write ops \<Longrightarrow> file_buf (tmpfile (run_ops ops f)) = file_buf (tmpfile f)"
  by (induction ops arbitrary: f) (simp_all add: run_ops_Nil run_ops_Cons run_op_buf)

text \<open>
  Without a seek the cursor of a file stays at the end of its buffer once it is there:
  a write appends, and a read finds nothing left.
\<close>

lemma run_op_append:
  "\<not> is_seek op \<Longrightarrow> \<not> file_closed (tmpfile f) \<Longrightarrow>
   file_pos (tmpfile f) = length (file_buf (tmpfile f)) \<Longrightarrow>
   file_buf (tmpfile (run_op op f)) = file_buf (tmpfile f) @ written op
   \<and> file_pos (tmpfile (run_op op f)) = length (file_buf (tmpfile (run_op op f)))"
  by (cases op)
     (auto simp: gcloud_file_write_def gcloud_file_read_def file_write_def file_read_def
                 write_at_def Let_def
           split: prod.splits option.splits)

lemma run_ops_append:
  "\<not> list_ex is_seek ops \<Longrightarrow> \<not> file_closed (tmpfile f) \<Longrightarrow>
   file_pos (tmpfile f) = length (file_buf (tmpfile f)) \<Longrightarrow>
   file_buf (tmpfile (run_ops ops f)) = file_buf (tmpfile f) @ concat (map written ops)"
proof (induction ops arbitrary: f)
  case Nil
  then show ?case by (simp add: run_ops_Nil)
next
  case (Cons op ops)
  from Cons.prems have a: "\<not> is_seek op" and b: "\<not> list_ex is_seek ops"
    by simp_all
  note step = run_op_append [OF a Cons.prems(2) Cons.prems(3)]
  have "file_buf (tmpfile (run_ops ops (run_op op f)))
          = file_buf (tmpfile (run_op op f)) @ concat (map written ops)"
    using Cons.IH [OF b] step Cons.prems(2) by (simp add: run_op_closed)
  with step show ?case by (simp add: run_ops_Cons)
qed

subsection \<open>What the store holds after an upload\<close>

lemma upload_calls_put_blob: "upload_calls (put_blob key payload w) = upload_calls w"
  by (simp add: put_blob_def)

lemma find_append_absent:
  "key \<notin> set (map blob_name bs) \<Longrightarrow>
   find (\<lambda>b. blob_name b = key) (bs @ ys) = find (\<lambda>b. blob_name b = key) ys"
  by (induction bs) auto

lemma find_map_present:
  "key \<in> set (map blob_name bs) \<Longrightarrow>
   map_option blob_content
     (find (\<lambda>b. blob_name b = key)
        (map (\<lambda>b. if blob_name b = key then b\<lparr>blob_content := payload, blob_updated := c\<rparr>
                   else b) bs)) = Some payload"
  by (induction bs) auto

lemma find_put_blob:
  "map_option blob_content (find (\<lambda>b. blob_name b = key) (blobs (put_blob key payload w)))
     = Some payload"
proof (cases "key \<in> set (map blob_name (blobs w))")
  case True
  then show ?thesis
    using find_map_present [OF True] by (simp add: put_blob_def)
next
  case False
  then show ?thesis
    using find_append_absent [OF False] by (simp add: put_blob_def)
qed

subsection \<open>The three ways \<open>close\<close> can go\<close>

lemma close_clean:
  "\<not> dirty f \<Longrightarrow>
   gcloud_file_close f w = (Inr (), f\<lparr>tmpfile := file_close (tmpfile f)\<rparr>, w)"
  by (simp add: gcloud_file_close_def)

lemma close_dirty_calls:
  "dirty f \<Longrightarrow> \<not> file_closed (tmpfile f) \<Longrightarrow>
   upload_calls (snd (snd (gcloud_file_close f w)))
     = upload_calls w @ [(blob f, file_buf (tmpfile f))]"
  by (auto simp: gcloud_file_close_def upload_from_file_def upload_calls_put_blob Let_def
           split: option.splits prod.splits sum.splits)

lemma close_dirty_ok:
  "dirty f \<Longrightarrow> \<not> file_closed (tmpfile f) \<Longrightarrow> fault w = None \<Longrightarrow>
   fst (gcloud_file_close f w) = Inr ()
   \<and> blobs (snd (snd (gcloud_file_close f w)))
       = blobs (put_blob (blob f) (file_buf (tmpfile f)) w)"
  by (auto simp: gcloud_file_close_def upload_from_file_def put_blob_def Let_def
           split: option.splits prod.splits sum.splits)

lemma close_dirty_fault:
  assumes "dirty f" and "\<not> file_closed (tmpfile f)" and "fault w = Some (e, k)"
  shows "gcloud_file_close f w =
           (Inl e,
            f\<lparr>tmpfile := (tmpfile f)\<lparr>file_pos := min k (length (file_buf (tmpfile f)))\<rparr>\<rparr>,
            w\<lparr>upload_calls := upload_calls w @ [(blob f, file_buf (tmpfile f))]\<rparr>)"
  using assms by (simp add: gcloud_file_close_def upload_from_file_def Let_def)

lemma close_at_most_one:
  "length (upload_calls (snd (snd (gcloud_file_close f w)))) \<le> length (upload_calls w) + 1"
  by (auto simp: gcloud_file_close_def upload_from_file_def upload_calls_put_blob Let_def
           split: option.splits prod.splits sum.splits)

section \<open>Closing a buffered remote file\<close>

text \<open>
  Claim C2. Take a file that is open, let the caller run any writes, reads and seeks on
  it, and close it. The close sends at most one upload request. If one of the
  operations was a write, it sends exactly one, for the file's blob, and the bytes it
  offers are the whole buffer from offset zero, wherever the cursor stood; when the
  store answers, the call returns normally and those bytes are the blob's new content.
  For a new file and operations without a seek, the buffer is the written byte
  sequences one after the other, in the order of the writes.
\<close>

theorem close_uploads_whole_buffer_once:
  assumes "\<not> file_closed (tmpfile self0)"
  shows "length (upload_calls (snd (snd (gcloud_file_close (run_ops ops self0) w))))
           \<le> length (upload_calls w) + 1
       \<and> (list_ex is_write ops \<longrightarrow>
            upload_calls (snd (snd (gcloud_file_close (run_ops ops self0) w)))
              = upload_calls w @ [(blob self0, file_buf (tmpfile (run_ops ops self0)))])
       \<and> (list_ex is_write ops \<and> fault w = None \<longrightarrow>
            fst (gcloud_file_close (run_ops ops self0) w) = Inr ()
            \<and> map_option blob_content
                 (find (\<lambda>b. blob_name b = blob self0)
                    (blobs (snd (snd (gcloud_file_close (run_ops ops self0) w)))))
               = Some (file_buf (tmpfile (run_ops ops self0))))
       \<and> (self0 = gcloud_file_init key \<and> \<not> list_ex is_seek ops \<longrightarrow>
            file_buf (tmpfile (run_ops ops self0)) = concat (map written ops))"
proof -
  let ?f = "run_ops ops self0"
  have still_open: "\<not> file_closed (tmpfile ?f)"
    using assms by (simp add: run_ops_closed)
  have one:
    "length (upload_calls (snd (snd (gcloud_file_close ?f w)))) \<le> length (upload_calls w) + 1"
    by (rule close_at_most_one)
  have two:
    "upload_calls (snd (snd (gcloud_file_close ?f w)))
       = upload_calls w @ [(blob self0, file_buf (tmpfile ?f))]"
    if "list_ex is_write ops"
    using close_dirty_calls [of ?f w] that still_open
    by (simp add: run_ops_dirty run_ops_blob)
  have three:
    "fst (gcloud_file_close ?f w) = Inr ()
     \<and> map_option blob_content
          (find (\<lambda>b. blob_name b = blob self0) (blobs (snd (snd (gcloud_file_close ?f w)))))
        = Some (file_buf (tmpfile ?f))"
    if "list_ex is_write ops" and "fault w = None"
    using close_dirty_ok [of ?f w] that still_open
          find_put_blob [of "blob self0" "file_buf (tmpfile ?f)" w]
    by (simp add: run_ops_dirty run_ops_blob)
  have four: "file_buf (tmpfile ?f) = concat (map written ops)"
    if "self0 = gcloud_file_init key" and "\<not> list_ex is_seek ops"
    using run_ops_append [of ops self0] that
    by (simp add: gcloud_file_init_def new_spooled_file_def)
  from one two three four show ?thesis by blast
qed

theorem close_uploads_whole_buffer_once_witness:
  "\<not> file_closed (tmpfile (gcloud_file_init ''/a.txt''))
   \<and> list_ex is_write [Write ''ab'', Read None, Write ''cd'']
   \<and> upload_calls (snd (snd (gcloud_file_close
        (run_ops [Write ''ab'', Read None, Write ''cd''] (gcloud_file_init ''/a.txt''))
        one_blob_bucket)))
       = [(''/a.txt'', ''abcd'')]
   \<and> map_option blob_content
        (find (\<lambda>b. blob_name b = ''/a.txt'')
           (blobs (snd (snd (gcloud_file_close
              (run_ops [Write ''ab'', Read None, Write ''cd''] (gcloud_file_init ''/a.txt''))
              one_blob_bucket)))))
       = Some ''abcd''"
proof -
  let ?ops = "[Write ''ab'', Read None, Write ''cd'']"
  have a: "\<not> file_closed (tmpfile (gcloud_file_init ''/a.txt''))" by code_simp
  have b: "list_ex is_write ?ops" by code_simp
  have c: "\<not> list_ex is_seek ?ops" by code_simp
  have d: "fault one_blob_bucket = None" by code_simp
  have e: "upload_calls one_blob_bucket = []" by code_simp
  have f: "blob (gcloud_file_init ''/a.txt'') = ''/a.txt''" by code_simp
  have g: "concat (map written ?ops) = ''abcd''" by code_simp
  note whole = close_uploads_whole_buffer_once [OF a, of ?ops one_blob_bucket "''/a.txt''"]
  from whole c g
  have buf: "file_buf (tmpfile (run_ops ?ops (gcloud_file_init ''/a.txt''))) = ''abcd''"
    by simp
  from whole b have
    "upload_calls (snd (snd (gcloud_file_close
        (run_ops ?ops (gcloud_file_init ''/a.txt'')) one_blob_bucket)))
       = upload_calls one_blob_bucket
         @ [(blob (gcloud_file_init ''/a.txt''),
             file_buf (tmpfile (run_ops ?ops (gcloud_file_init ''/a.txt''))))]"
    by blast
  then have calls:
    "upload_calls (snd (snd (gcloud_file_close
        (run_ops ?ops (gcloud_file_init ''/a.txt'')) one_blob_bucket)))
       = [(''/a.txt'', ''abcd'')]"
    by (simp only: e f buf append_Nil)
  from whole b d have
    "map_option blob_content
        (find (\<lambda>b. blob_name b = blob (gcloud_file_init ''/a.txt''))
           (blobs (snd (snd (gcloud_file_close
              (run_ops ?ops (gcloud_file_init ''/a.txt'')) one_blob_bucket)))))
       = Some (file_buf (tmpfile (run_ops ?ops (gcloud_file_init ''/a.txt''))))"
    by blast
  then have content:
    "map_option blob_content
        (find (\<lambda>b. blob_name b = ''/a.txt'')
           (blobs (snd (snd (gcloud_file_close
              (run_ops ?ops (gcloud_file_init ''/a.txt'')) one_blob_bucket)))))
       = Some ''abcd''"
    by (simp only: f buf)
  from a b calls content show ?thesis by blast
qed

text \<open>
  Claim C5, as stated: if every write of the cycle carries an empty byte sequence, the
  close uploads nothing. It fails: \<open>write\<close> sets the dirty flag before it looks at its
  argument, so one write of no bytes to a new file is followed by an upload.
\<close>

theorem empty_write_uploads_counterexample:
  "written (Write '''') = ''''
   \<and> upload_calls (snd (snd (gcloud_file_close
         (run_ops [Write ''''] (gcloud_file_init ''/a.txt'')) one_blob_bucket)))
       \<noteq> upload_calls one_blob_bucket"
  by code_simp

text \<open>
  Claim C5, amended. When the dirty flag is clear at the start of the cycle and the
  caller makes no write call at all, only reads and seeks, the close returns normally
  and sends nothing to the store.
\<close>

theorem close_without_write_uploads_nothing:
  "\<not> dirty self0 \<Longrightarrow> \<not> list_ex is_write ops \<Longrightarrow>
   fst (gcloud_file_close (run_ops ops self0) w) = Inr ()
   \<and> snd (snd (gcloud_file_close (run_ops ops self0) w)) = w"
  by (simp add: close_clean run_ops_dirty)

theorem close_without_write_uploads_nothing_witness:
  "\<not> dirty (gcloud_file_init ''/a.txt'')
   \<and> \<not> list_ex is_write [Read None, Seek 3, Read (Some 2)]
   \<and> fst (gcloud_file_close
        (run_ops [Read None, Seek 3, Read (Some 2)] (gcloud_file_init ''/a.txt''))
        one_blob_bucket) = Inr ()
   \<and> snd (snd (gcloud_file_close
        (run_ops [Read None, Seek 3, Read (Some 2)] (gcloud_file_init ''/a.txt''))
        one_blob_bucket)) = one_blob_bucket"
proof -
  have a: "\<not> dirty (gcloud_file_init ''/a.txt'')" by code_simp
  have b: "\<not> list_ex is_write [Read None, Seek 3, Read (Some 2)]" by code_simp
  from close_without_write_uploads_nothing [OF a b, of one_blob_bucket] a b
  show ?thesis by simp
qed

text \<open>
  Claim C8. When the upload of a dirty, open file fails with an error \<open>e\<close>, the close
  raises \<open>e\<close> itself. The file stays dirty and open with the same buffer and blob, no
  object of the store has changed, and the store has seen one upload request, not
  more. A later close, once the store answers, returns normally and uploads the same
  whole buffer, which becomes the blob's content.
\<close>

theorem failed_upload_keeps_file_dirty:
  assumes "dirty self" and "\<not> file_closed (tmpfile self)" and "fault w = Some (e, k)"
  shows "fst (gcloud_file_close self w) = Inl e
       \<and> dirty (fst (snd (gcloud_file_close self w)))
       \<and> \<not> file_closed (tmpfile (fst (snd (gcloud_file_close self w))))
       \<and> file_buf (tmpfile (fst (snd (gcloud_file_close self w)))) = file_buf (tmpfile self)
       \<and> blob (fst (snd (gcloud_file_close self w))) = blob self
       \<and> blobs (snd (snd (gcloud_file_close self w))) = blobs w
       \<and> upload_calls (snd (snd (gcloud_file_close self w)))
           = upload_calls w @ [(blob self, file_buf (tmpfile self))]
       \<and> (fault w2 = None \<longrightarrow>
            fst (gcloud_file_close (fst (snd (gcloud_file_close self w))) w2) = Inr ()
            \<and> upload_calls
                 (snd (snd (gcloud_file_close (fst (snd (gcloud_file_close self w))) w2)))
                = upload_calls w2 @ [(blob self, file_buf (tmpfile self))]
            \<and> map_option blob_content
                 (find (\<lambda>b. blob_name b = blob self)
                    (blobs (snd (snd
                       (gcloud_file_close (fst (snd (gcloud_file_close self w))) w2)))))
                = Some (file_buf (tmpfile self)))"
proof -
  let ?f' =
    "self\<lparr>tmpfile := (tmpfile self)\<lparr>file_pos := min k (length (file_buf (tmpfile self)))\<rparr>\<rparr>"
  have eq: "gcloud_file_close self w =
      (Inl e, ?f', w\<lparr>upload_calls := upload_calls w @ [(blob self, file_buf (tmpfile self))]\<rparr>)"
    by (rule close_dirty_fault [OF assms])
  have d: "dirty ?f'" and c: "\<not> file_closed (tmpfile ?f')"
    using assms by simp_all
  have retry:
    "fst (gcloud_file_close ?f' w2) = Inr ()
     \<and> upload_calls (snd (snd (gcloud_file_close ?f' w2)))
          = upload_calls w2 @ [(blob self, file_buf (tmpfile self))]
     \<and> map_option blob_content
          (find (\<lambda>b. blob_name b = blob self) (blobs (snd (snd (gcloud_file_close ?f' w2)))))
        = Some (file_buf (tmpfile self))"
    if "fault w2 = None"
    using close_dirty_ok [OF d c that] close_dirty_calls [OF d c, of w2]
          find_put_blob [of "blob self" "file_buf (tmpfile self)" w2]
    by simp
  from eq retry assms(1,2) show ?thesis by simp
qed

theorem failed_upload_keeps_file_dirty_witness:
  "dirty (run_ops [Write ''hi'', Seek 1] (gcloud_file_init ''/a.txt''))
   \<and> fault failing_bucket = Some (ServiceError ''503 Service Unavailable'', 1)
   \<and> fault one_blob_bucket = None
   \<and> fst (gcloud_file_close
        (run_ops [Write ''hi'', Seek 1] (gcloud_file_init ''/a.txt'')) failing_bucket)
       = Inl (ServiceError ''503 Service Unavailable'')
   \<and> upload_calls (snd (snd (gcloud_file_close
        (fst (snd (gcloud_file_close
           (run_ops [Write ''hi'', Seek 1] (gcloud_file_init ''/a.txt'')) failing_bucket)))
        one_blob_bucket))) = [(''/a.txt'', ''hi'')]"
proof -
  let ?f = "run_ops [Write ''hi'', Seek 1] (gcloud_file_init ''/a.txt'')"
  have a: "dirty ?f" by code_simp
  have b: "\<not> file_closed (tmpfile ?f)" by code_simp
  have c: "fault failing_bucket = Some (ServiceError ''503 Service Unavailable'', 1)"
    by code_simp
  have d: "fault one_blob_bucket = None" by code_simp
  have e: "upload_calls one_blob_bucket = []" by code_simp
  have f: "blob ?f = ''/a.txt''" by code_simp
  have g: "file_buf (tmpfile ?f) = ''hi''" by code_simp
  from failed_upload_keeps_file_dirty [OF a b c, of one_blob_bucket] a c d e f g
  show ?thesis by simp
qed

text \<open>
  Claim C10. After a \<open>close()\<close> that returns normally, whether it uploaded or not, a
  second \<open>close()\<close> returns normally as well, leaves the file as it is and sends nothing
  to the store: the store it is given, whatever its state, comes back unchanged.
\<close>

theorem close_after_close:
  "gcloud_file_close self w = (Inr u, self', w') \<Longrightarrow>
   gcloud_file_close self' w2 = (Inr (), self', w2)"
  by (auto simp: gcloud_file_close_def file_close_def split: if_splits prod.splits sum.splits)

theorem close_after_close_witness:
  "gcloud_file_close (run_ops [Write ''hi''] (gcloud_file_init ''/a.txt'')) one_blob_bucket =
     (Inr (),
      \<lparr>dirty = False, tmpfile = \<lparr>file_buf = [], file_pos = 0, file_closed = True\<rparr>,
        blob = ''/a.txt''\<rparr>,
      put_blob ''/a.txt'' ''hi'' (one_blob_bucket\<lparr>upload_calls := [(''/a.txt'', ''hi'')]\<rparr>))
   \<and> gcloud_file_close
         \<lparr>dirty = False, tmpfile = \<lparr>file_buf = [], file_pos = 0, file_closed = True\<rparr>,
           blob = ''/a.txt''\<rparr>
         failing_bucket =
       (Inr (),
        \<lparr>dirty = False, tmpfile = \<lparr>file_buf = [], file_pos = 0, file_closed = True\<rparr>,
          blob = ''/a.txt''\<rparr>,
        failing_bucket)"
proof -
  have first:
    "gcloud_file_close (run_ops [Write ''hi''] (gcloud_file_init ''/a.txt'')) one_blob_bucket =
       (Inr (),
        \<lparr>dirty = False, tmpfile = \<lparr>file_buf = [], file_pos = 0, file_closed = True\<rparr>,
          blob = ''/a.txt''\<rparr>,
        put_blob ''/a.txt'' ''hi'' (one_blob_bucket\<lparr>upload_calls := [(''/a.txt'', ''hi'')]\<rparr>))"
    by code_simp
  from close_after_close [OF first, of failing_bucket] first show ?thesis
    by simp
qed

section \<open>Facts about the storage\<close>

subsection \<open>Looking up an object\<close>

lemma find_absent:
  "key \<notin> set (map blob_name bs) \<Longrightarrow> find (\<lambda>b. blob_name b = key) bs = None"
  by (induction bs) auto

lemma find_SomeD: "find P xs = Some x \<Longrightarrow> P x \<and> x \<in> set xs"
  by (induction xs) (auto split: if_splits)

lemma get_blob_absent:
  "fault w = None \<Longrightarrow> key \<notin> set (map blob_name (blobs w)) \<Longrightarrow> get_blob key w = Inr None"
  by (simp add: get_blob_def find_absent)

subsection \<open>Downloading into a buffered remote file\<close>

text \<open>
  The chunks of a download reach the temporary file through \<open>GCloudFile.write\<close>: the
  buffer grows by the content, and the file is dirty as soon as there is a chunk.
\<close>

lemma write_chunks_appends:
  "\<not> file_closed (tmpfile f) \<Longrightarrow> file_pos (tmpfile f) = length (file_buf (tmpfile f)) \<Longrightarrow>
   fst (write_chunks (chunks_of n s) f) = Inr ()
   \<and> dirty (snd (write_chunks (chunks_of n s) f)) = (dirty f \<or> s \<noteq> [])
   \<and> blob (snd (write_chunks (chunks_of n s) f)) = blob f
   \<and> \<not> file_closed (tmpfile (snd (write_chunks (chunks_of n s) f)))
   \<and> file_buf (tmpfile (snd (write_chunks (chunks_of n s) f))) = file_buf (tmpfile f) @ s"
proof (induction n s arbitrary: f rule: chunks_of.induct)
  case (1 n s)
  show ?case
  proof (cases "s = []")
    case True
    then show ?thesis
      using "1.prems" by (simp add: chunks_of.simps [of n "[]"])
  next
    case False
    note nonempty = False
    show ?thesis
    proof (cases "n = 0")
      case True
      then show ?thesis
        using nonempty "1.prems"
        by (simp add: chunks_of.simps [of 0 s] gcloud_file_write_def file_write_def
                      write_at_def)
    next
      case False
      define f1 where "f1 = snd (gcloud_file_write (take n s) f)"
      have w1: "gcloud_file_write (take n s) f = (Inr (), f1)"
        using "1.prems" by (simp add: f1_def gcloud_file_write_def file_write_def)
      have p1: "\<not> file_closed (tmpfile f1)"
        and p2: "file_pos (tmpfile f1) = length (file_buf (tmpfile f1))"
        and p3: "file_buf (tmpfile f1) = file_buf (tmpfile f) @ take n s"
        and p4: "dirty f1" and p5: "blob f1 = blob f"
        using "1.prems" nonempty False
        by (auto simp: f1_def gcloud_file_write_def file_write_def write_at_def)
      note ih = "1.IH" [OF nonempty False p1 p2]
      have unfold: "write_chunks (chunks_of n s) f = write_chunks (chunks_of n (drop n s)) f1"
        using nonempty False w1 by (simp add: chunks_of.simps [of n s])
      from ih p3 p4 p5 nonempty show ?thesis
        by (simp add: unfold)
    qed
  qed
qed

subsection \<open>Keys below a prefix\<close>

lemma startswith_iff: "startswith n p \<longleftrightarrow> (\<exists>x. n = p @ x)"
proof
  assume "startswith n p"
  then have "n = p @ drop (length p) n"
    by (metis append_take_drop_id startswith_def)
  then show "\<exists>x. n = p @ x" ..
next
  assume "\<exists>x. n = p @ x"
  then show "startswith n p" by (auto simp: startswith_def)
qed

lemma remove_prefix_append: "remove_prefix (p @ x) p = x"
  by (simp add: remove_prefix_def startswith_def)

lemma rstrip_segment: "CHR ''/'' \<notin> set seg \<Longrightarrow> rstrip ''/'' (seg @ ''/'') = seg"
proof -
  assume a: "CHR ''/'' \<notin> set seg"
  have "dropWhile (\<lambda>c. c \<in> set ''/'') (rev seg) = rev seg"
    using a by (cases "rev seg") (auto simp: dropWhile_eq_self_iff)
  then show ?thesis by (simp add: rstrip_def)
qed

lemma before_after: "c \<in> set r \<Longrightarrow> r = before c r @ c # after c r"
proof -
  assume a: "c \<in> set r"
  then have "dropWhile (\<lambda>x. x \<noteq> c) r \<noteq> []" by simp
  moreover have "hd (dropWhile (\<lambda>x. x \<noteq> c) r) = c"
    using calculation hd_dropWhile [of "\<lambda>x. x \<noteq> c" r] by simp
  ultimately have "dropWhile (\<lambda>x. x \<noteq> c) r = c # after c r"
    by (cases "dropWhile (\<lambda>x. x \<noteq> c) r") (simp_all add: after_def)
  then show ?thesis
    using takeWhile_dropWhile_id [of "\<lambda>x. x \<noteq> c" r] by (simp add: before_def)
qed

lemma before_not_in: "c \<notin> set (before c r)"
  by (auto simp: before_def dest: set_takeWhileD)

lemma before_append: "c \<notin> set d \<Longrightarrow> before c (d @ c # rest) = d"
  by (induction d) (auto simp: before_def)

subsection \<open>The result of \<open>listdir\<close>, spelled out\<close>

lemma listdir_unfold:
  assumes "safe_join bucket_subdir path0 = Inr key" and "fault w = None"
  shows "storage_listdir path0 w =
    Inr (sort (map (\<lambda>p. rstrip ''/'' (remove_prefix p key))
                (remdups (map (\<lambda>n. key @ before CHR ''/'' (drop (length key) n) @ ''/'')
                   (filter (\<lambda>n. CHR ''/'' \<in> set (drop (length key) n))
                      (filter (\<lambda>n. startswith n key) (map blob_name (blobs w))))))),
         sort (map (\<lambda>n. remove_prefix n key)
                (filter (\<lambda>n. CHR ''/'' \<notin> set (drop (length key) n))
                   (filter (\<lambda>n. startswith n key) (map blob_name (blobs w))))))"
  using assms by (simp add: storage_listdir_def list_blobs_def prepare_name_def Let_def)

lemma listdir_items_set:
  "set (map (\<lambda>n. remove_prefix n key)
         (filter (\<lambda>n. CHR ''/'' \<notin> set (drop (length key) n))
            (filter (\<lambda>n. startswith n key) names)))
   = {x. key @ x \<in> set names \<and> CHR ''/'' \<notin> set x}"
  (is "?L = ?R")
proof
  show "?L \<subseteq> ?R"
    by (auto simp: startswith_iff remove_prefix_append)
  show "?R \<subseteq> ?L"
  proof
    fix x assume "x \<in> ?R"
    then have a: "key @ x \<in> set names" and b: "CHR ''/'' \<notin> set x" by simp_all
    have "startswith (key @ x) key" by (simp add: startswith_iff)
    moreover have "CHR ''/'' \<notin> set (drop (length key) (key @ x))" using b by simp
    moreover have "remove_prefix (key @ x) key = x" by (rule remove_prefix_append)
    ultimately show "x \<in> ?L" using a by (force simp: image_iff)
  qed
qed

lemma listdir_dir_of_prefix:
  "rstrip ''/'' (remove_prefix (key @ before CHR ''/'' r @ ''/'') key) = before CHR ''/'' r"
  by (simp add: remove_prefix_append rstrip_segment before_not_in)

lemma listdir_dirs_set:
  "set (map (\<lambda>p. rstrip ''/'' (remove_prefix p key))
         (remdups (map (\<lambda>n. key @ before CHR ''/'' (drop (length key) n) @ ''/'')
            (filter (\<lambda>n. CHR ''/'' \<in> set (drop (length key) n))
               (filter (\<lambda>n. startswith n key) names)))))
   = {d. CHR ''/'' \<notin> set d \<and> (\<exists>rest. key @ d @ ''/'' @ rest \<in> set names)}"
  (is "?L = ?R")
proof
  show "?L \<subseteq> ?R"
  proof
    fix d assume "d \<in> ?L"
    then obtain n where n: "n \<in> set names" "startswith n key"
        "CHR ''/'' \<in> set (drop (length key) n)"
        and d: "d = before CHR ''/'' (drop (length key) n)"
      by (auto simp: listdir_dir_of_prefix)
    from n(2) obtain x where x: "n = key @ x" by (auto simp: startswith_iff)
    with n(3) have "x = before CHR ''/'' x @ CHR ''/'' # after CHR ''/'' x"
      using before_after [of "CHR ''/''" x] by simp
    with x d n(1) have "key @ d @ ''/'' @ after CHR ''/'' x \<in> set names" by simp
    moreover have "CHR ''/'' \<notin> set d" by (simp add: d before_not_in)
    ultimately show "d \<in> ?R" by blast
  qed
  show "?R \<subseteq> ?L"
  proof
    fix d assume "d \<in> ?R"
    then obtain rest where a: "CHR ''/'' \<notin> set d"
        and b: "key @ d @ ''/'' @ rest \<in> set names"
      by blast
    let ?n = "key @ d @ ''/'' @ rest"
    have "startswith ?n key" by (simp add: startswith_iff)
    moreover have "CHR ''/'' \<in> set (drop (length key) ?n)" by simp
    moreover have "before CHR ''/'' (drop (length key) ?n) = d"
      using before_append [OF a, of rest] by simp
    ultimately show "d \<in> ?L"
      using b by (force simp: listdir_dir_of_prefix image_iff)
  qed
qed

lemma listdir_dirs_distinct:
  "distinct (map (\<lambda>p. rstrip ''/'' (remove_prefix p key))
         (remdups (map (\<lambda>n. key @ before CHR ''/'' (drop (length key) n) @ ''/'') ns)))"
proof -
  have "inj_on (\<lambda>p. rstrip ''/'' (remove_prefix p key))
          (set (map (\<lambda>n. key @ before CHR ''/'' (drop (length key) n) @ ''/'') ns))"
    by (rule inj_onI) (auto simp: listdir_dir_of_prefix)
  then show ?thesis by (simp add: distinct_map)
qed

section \<open>The storage operations\<close>

text \<open>
  Claim C3 says that a file opened for reading is clean, so that closing it after reads
  only uploads nothing. The code does otherwise, and this theorem states what it does.
  For a name that resolves to the key of an object with at least one byte, on a store
  that answers, \<open>_open\<close> returns a file that holds the whole content with the cursor at
  the start, as the claim says, but with the dirty flag set: the download has gone
  through \<open>GCloudFile.write\<close>. Closing it after any reads and seeks sends one upload
  of that content.
\<close>

theorem open_then_close_uploads:
  assumes "safe_join bucket_subdir name0 = Inr key" and "fault w = None"
    and "find (\<lambda>b. blob_name b = key) (blobs w) = Some b" and "blob_content b \<noteq> []"
  shows "case storage_open name0 mode w of
           Inl e \<Rightarrow> False
         | Inr f \<Rightarrow>
             file_buf (tmpfile f) = blob_content b \<and> file_pos (tmpfile f) = 0
             \<and> \<not> file_closed (tmpfile f) \<and> blob f = key \<and> dirty f
             \<and> (\<not> list_ex is_write ops \<longrightarrow>
                  upload_calls (snd (snd (gcloud_file_close (run_ops ops f) w)))
                    = upload_calls w @ [(key, blob_content b)])"
proof -
  let ?f0 = "gcloud_file_init (blob_name b)"
  let ?r = "write_chunks (chunks_of default_chunksize (blob_content b)) ?f0"
  have name: "blob_name b = key"
    using find_SomeD [OF assms(3)] by simp
  have init: "\<not> file_closed (tmpfile ?f0)"
    "file_pos (tmpfile ?f0) = length (file_buf (tmpfile ?f0))"
    by (simp_all add: gcloud_file_init_def new_spooled_file_def)
  note wr = write_chunks_appends [OF init, of default_chunksize "blob_content b"]
  have dl: "download_to_file b ?f0 w = (Inr (), snd ?r)"
    using wr assms(2) by (simp add: download_to_file_def prod_eq_iff)
  let ?f = "(snd ?r)\<lparr>tmpfile := (tmpfile (snd ?r))\<lparr>file_pos := 0\<rparr>\<rparr>"
  have op: "storage_open name0 mode w = Inr ?f"
    using assms(1,2,3) dl wr
    by (simp add: storage_open_def prepare_name_def get_blob_def gcloud_file_seek_def
                  file_seek_def)
  have props: "file_buf (tmpfile ?f) = blob_content b" "file_pos (tmpfile ?f) = 0"
    "\<not> file_closed (tmpfile ?f)" "blob ?f = key" "dirty ?f"
    using wr assms(4) name by (simp_all add: gcloud_file_init_def new_spooled_file_def)
  have "upload_calls (snd (snd (gcloud_file_close (run_ops ops ?f) w)))
          = upload_calls w @ [(key, blob_content b)]"
    if "\<not> list_ex is_write ops"
    using close_dirty_calls [of "run_ops ops ?f" w] props that
    by (simp add: run_ops_dirty run_ops_closed run_ops_blob run_ops_buf)
  with op props show ?thesis by simp
qed

theorem open_then_close_uploads_witness:
  "safe_join bucket_subdir ''a.txt'' = Inr ''/a.txt''
   \<and> (case storage_open ''a.txt'' ''rb'' one_blob_bucket of
         Inl e \<Rightarrow> False
       | Inr f \<Rightarrow>
           file_buf (tmpfile f) = ''hello'' \<and> dirty f
           \<and> upload_calls (snd (snd (gcloud_file_close (run_ops [Read None] f) one_blob_bucket)))
               = [(''/a.txt'', ''hello'')])"
proof -
  have a: "safe_join bucket_subdir ''a.txt'' = Inr ''/a.txt''" by code_simp
  have b: "fault one_blob_bucket = None" by code_simp
  have c: "find (\<lambda>b. blob_name b = ''/a.txt'') (blobs one_blob_bucket)
             = Some \<lparr>blob_name = ''/a.txt'', blob_content = ''hello'',
                     blob_updated = ''2015-05-01T08:00:00.000000Z'',
                     blob_time_created = Some ''2015-05-01T08:00:00.000000Z''\<rparr>"
    by code_simp
  have d: "upload_calls one_blob_bucket = []" by code_simp
  have e: "\<not> list_ex is_write [Read None]" by code_simp
  from open_then_close_uploads [OF a b c, where mode = "''rb''" and ops = "[Read None]"]
       a d e
  show ?thesis by (simp split: sum.splits)
qed

text \<open>
  Claim C6 says that for a name that resolves but names no object, \<open>exists\<close> is false
  and \<open>size\<close>, \<open>modified_time\<close> and \<open>created_time\<close> give \<open>None\<close>. On a store that
  answers, the first three do; \<open>created_time\<close> reads a property of the absent blob and
  raises \<open>AttributeError\<close>.
\<close>

theorem stat_of_missing_object:
  assumes "safe_join bucket_subdir name0 = Inr key" and "fault w = None"
    and "key \<notin> set (map blob_name (blobs w))"
  shows "storage_exists name0 w = Inr False
       \<and> storage_size name0 w = Inr None
       \<and> storage_modified_time name0 w = Inr None
       \<and> storage_created_time name0 w = Inl AttributeError"
  using assms get_blob_absent [OF assms(2,3)]
  by (simp add: storage_exists_def storage_size_def storage_modified_time_def
                storage_created_time_def prepare_name_def)

theorem stat_of_missing_object_witness:
  "safe_join bucket_subdir ''missing.txt'' = Inr ''/missing.txt''
   \<and> fault one_blob_bucket = None
   \<and> ''/missing.txt'' \<notin> set (map blob_name (blobs one_blob_bucket))
   \<and> storage_exists ''missing.txt'' one_blob_bucket = Inr False
   \<and> storage_size ''missing.txt'' one_blob_bucket = Inr None
   \<and> storage_modified_time ''missing.txt'' one_blob_bucket = Inr None
   \<and> storage_created_time ''missing.txt'' one_blob_bucket = Inl AttributeError"
proof -
  have a: "safe_join bucket_subdir ''missing.txt'' = Inr ''/missing.txt''" by code_simp
  have b: "fault one_blob_bucket = None" by code_simp
  have c: "''/missing.txt'' \<notin> set (map blob_name (blobs one_blob_bucket))" by code_simp
  from stat_of_missing_object [OF a b c] a b c show ?thesis by blast
qed

text \<open>
  Claim C7. For a name that resolves to a key: when the store answers and holds no
  object with that key, \<open>delete_blob\<close> raises \<open>NotFound\<close> and \<open>delete\<close> returns normally,
  the store unchanged; whenever \<open>delete_blob\<close> raises \<open>NotFound\<close>, \<open>delete\<close> returns
  normally; and any other error of the store comes out of \<open>delete\<close> as it is.
\<close>

theorem delete_swallows_not_found_only:
  assumes "safe_join bucket_subdir name0 = Inr key"
  shows "(fault w = None \<and> key \<notin> set (map blob_name (blobs w))
            \<longrightarrow> delete_blob key w = (Inl NotFound, w) \<and> storage_delete name0 w = (Inr (), w))
       \<and> (fst (delete_blob key w) = Inl NotFound \<longrightarrow> fst (storage_delete name0 w) = Inr ())
       \<and> (fault w = Some (e, k) \<and> e \<noteq> NotFound \<longrightarrow> storage_delete name0 w = (Inl e, w))"
  using assms
  by (auto simp: storage_delete_def delete_blob_def prepare_name_def
           split: option.splits exn.splits sum.splits prod.splits)

theorem delete_swallows_not_found_only_witness:
  "safe_join bucket_subdir ''missing.txt'' = Inr ''/missing.txt''
   \<and> storage_delete ''missing.txt'' one_blob_bucket = (Inr (), one_blob_bucket)
   \<and> storage_delete ''missing.txt'' failing_bucket
       = (Inl (ServiceError ''503 Service Unavailable''), failing_bucket)"
proof -
  have a: "safe_join bucket_subdir ''missing.txt'' = Inr ''/missing.txt''" by code_simp
  have b: "fault one_blob_bucket = None" by code_simp
  have c: "''/missing.txt'' \<notin> set (map blob_name (blobs one_blob_bucket))" by code_simp
  have d: "fault failing_bucket = Some (ServiceError ''503 Service Unavailable'', 1)"
    by code_simp
  from delete_swallows_not_found_only [OF a, of one_blob_bucket] b c
  have one: "storage_delete ''missing.txt'' one_blob_bucket = (Inr (), one_blob_bucket)"
    by blast
  from delete_swallows_not_found_only
         [OF a, of failing_bucket "ServiceError ''503 Service Unavailable''" 1] d
  have two: "storage_delete ''missing.txt'' failing_bucket
       = (Inl (ServiceError ''503 Service Unavailable''), failing_bucket)"
    by simp
  from a one two show ?thesis by blast
qed

text \<open>
  Claim C9, as stated, ends with a scenario: with the remote keys \<open>photos/a.jpg\<close> and
  \<open>photos/sub/b.jpg\<close>, \<open>listdir("photos/")\<close> gives the directory \<open>sub\<close> and the file
  \<open>a.jpg\<close>. It gives two empty lists: the path resolves to \<open>/photos/\<close>, and neither
  key starts with it.
\<close>

theorem listdir_bare_keys_counterexample:
  "map blob_name (blobs bare_photos_bucket) = [''photos/sub/b.jpg'', ''photos/a.jpg'']
   \<and> storage_listdir ''photos/'' bare_photos_bucket = Inr ([], [])
   \<and> storage_listdir ''photos/'' bare_photos_bucket \<noteq> Inr ([''sub''], [''a.jpg''])"
  by code_simp

text \<open>
  Claim C9, amended. For a path that resolves to a key, on a store that answers,
  \<open>listdir\<close> returns two sorted lists. The files are the remainders, after the key, of
  the object keys that start with it and hold no separator after it. The directories,
  without repetition, are the first segments, without the separator that ends them, of
  the remainders that do hold one. With the remote keys \<open>/photos/a.jpg\<close> and
  \<open>/photos/sub/b.jpg\<close>, under which the storage saves the names \<open>photos/a.jpg\<close> and
  \<open>photos/sub/b.jpg\<close>, \<open>listdir("photos/")\<close> gives the directory \<open>sub\<close> and the file
  \<open>a.jpg\<close>.
\<close>

theorem listdir_relative_sorted:
  assumes "safe_join bucket_subdir path0 = Inr key" and "fault w = None"
  shows "(case storage_listdir path0 w of
            Inl e \<Rightarrow> False
          | Inr (dirs, items) \<Rightarrow>
              sorted dirs \<and> distinct dirs \<and> sorted items
              \<and> set items = {x. key @ x \<in> set (map blob_name (blobs w)) \<and> CHR ''/'' \<notin> set x}
              \<and> set dirs = {d. CHR ''/'' \<notin> set d
                               \<and> (\<exists>rest. key @ d @ ''/'' @ rest \<in> set (map blob_name (blobs w)))})
       \<and> storage_listdir ''photos/'' photos_bucket = Inr ([''sub''], [''a.jpg''])
       \<and> fst (storage_save ''photos/a.jpg'' (new_spooled_file\<lparr>file_buf := ''a''\<rparr>) empty_bucket)
           = Inr ''/photos/a.jpg''
       \<and> fst (storage_save ''photos/sub/b.jpg'' (new_spooled_file\<lparr>file_buf := ''b''\<rparr>)
                empty_bucket)
           = Inr ''/photos/sub/b.jpg''"
proof -
  have scenario: "storage_listdir ''photos/'' photos_bucket = Inr ([''sub''], [''a.jpg''])"
    by code_simp
  have save_a:
    "fst (storage_save ''photos/a.jpg'' (new_spooled_file\<lparr>file_buf := ''a''\<rparr>) empty_bucket)
       = Inr ''/photos/a.jpg''"
    by code_simp
  have save_b:
    "fst (storage_save ''photos/sub/b.jpg'' (new_spooled_file\<lparr>file_buf := ''b''\<rparr>)
            empty_bucket)
       = Inr ''/photos/sub/b.jpg''"
    by code_simp
  show ?thesis
    unfolding listdir_unfold [OF assms]
    using listdir_items_set [of key "map blob_name (blobs w)"]
          listdir_dirs_set [of key "map blob_name (blobs w)"]
          listdir_dirs_distinct [of key]
    by (simp add: scenario save_a save_b)
qed

theorem listdir_relative_sorted_witness:
  "safe_join bucket_subdir ''photos/'' = Inr ''/photos/''
   \<and> fault photos_bucket = None
   \<and> map blob_name (blobs photos_bucket) = [''/photos/sub/b.jpg'', ''/photos/a.jpg'']
   \<and> storage_listdir ''photos/'' photos_bucket = Inr ([''sub''], [''a.jpg''])"
proof -
  have a: "safe_join bucket_subdir ''photos/'' = Inr ''/photos/''" by code_simp
  have b: "fault photos_bucket = None" by code_simp
  have c: "map blob_name (blobs photos_bucket) = [''/photos/sub/b.jpg'', ''/photos/a.jpg'']"
    by code_simp
  from listdir_relative_sorted [OF a b] a b c show ?thesis by blast
qed

end
